theory Spec2Isabelle
  imports Main "HOL-Library.AList"
begin

section \<open>Data model of pkg/controllers/util/federatedinformer.go\<close>

text \<open>
  A Go channel \<open>chan struct{}\<close> is a heap object; it is identified here by a number and
  \<open>make(chan struct{})\<close> hands out the next unused one. The nil channel is \<open>None\<close>.
\<close>

type_synonym chan = nat

text \<open>Run-time panics of the Go runtime that the modelled code can raise.\<close>

datatype panic =
    CloseOfNilChannel
  | CloseOfClosedChannel
  | NilPointerDereference
  | InterfaceConversion

text \<open>
  Go \<open>error\<close> values. \<open>StatusNotFound\<close> is the API status error that
  \<open>apierrors.IsNotFound\<close> recognises; \<open>Wrap\<close> is \<open>errors.Wrap\<close> and \<open>%w\<close>.
  \<open>apierrors.IsNotFound\<close> looks through the wrappers of an error for the status error,
  and is false of the nil error.
\<close>

datatype error =
    StatusNotFound string
  | Errorf string
  | Wrap string error


datatype ClusterConditionType = ClusterJoined | ClusterReady | ClusterOffline

datatype ConditionStatus = ConditionTrue | ConditionFalse | ConditionUnknown

text \<open>
  \<open>ClusterCondition\<close>: the field \<open>Status\<close> of the Go struct is \<open>CondStatus\<close> here,
  since the cluster has a field \<open>Status\<close> of its own.
\<close>

record ClusterCondition =
  Type :: ClusterConditionType
  CondStatus :: ConditionStatus

record FederatedClusterStatus =
  Conditions :: "ClusterCondition list"

text \<open>
  \<open>FederatedCluster\<close>, with the fields of the embedded \<open>ObjectMeta\<close> that the file reads.
  The spec type \<open>'spec\<close> is declared outside this file; equality on it, and on the
  label and annotation maps (\<open>None\<close> is the nil map), stands for \<open>reflect.DeepEqual\<close>.
\<close>

record 'spec FederatedCluster =
  Name :: string
  Labels :: "(string \<rightharpoonup> string) option"
  Annotations :: "(string \<rightharpoonup> string) option"
  DeletionTimestamp :: "nat option"
  Spec :: 'spec
  Status :: FederatedClusterStatus

record Unstructured =
  ObjNamespace :: string
  ObjName :: string
  ObjLabels :: "(string \<times> string) list"

text \<open>
  A value of type \<open>interface{}\<close> as the stores hold it: a cluster, an unstructured
  object, or a value of any other dynamic type (a tombstone, for instance). The nil
  interface is \<open>None\<close> of the option type.
\<close>

datatype 'spec obj =
    ClusterObj "'spec FederatedCluster"
  | UnstructuredObj Unstructured
  | OtherObj string

text \<open>
  \<open>cache.Store\<close> and \<open>cache.Controller\<close> are interfaces; a value is given by what its
  methods answer at the moment of the call.
\<close>

record 'spec Store =
  store_List :: "'spec obj list"
  store_GetByKey :: "string \<Rightarrow> 'spec obj option \<times> bool \<times> error option"

record Controller =
  HasSynced :: bool

record 'spec informer =
  controller :: Controller
  store :: "'spec Store"
  stopChan :: "chan option"

datatype Config = Config string

record APIResource =
  Group :: string
  Version :: string
  Kind :: string


text \<open>
  \<open>generic.Client\<close>: only \<open>Get\<close> is called. The empty object that the caller types
  with the kind and API version of the resource is passed as the resource itself; the
  answer is the error and the object as filled in.
\<close>

datatype Client =
  Client (client_Get: "APIResource \<Rightarrow> string \<Rightarrow> string \<Rightarrow> error option \<times> Unstructured")

record 'spec FederatedObject =
  Object :: "'spec obj option"
  ClusterName :: string

text \<open>
  What the code does to the world outside the struct, in the order it does it: closing a
  channel, starting \<open>controller.Run(stopChan)\<close> in a goroutine, calling a lifecycle
  handler.
\<close>

datatype 'spec effect =
    Close chan
  | GoRun chan
  | CallClusterAvailable "'spec FederatedCluster"
  | CallClusterUnavailable "'spec FederatedCluster" "'spec obj list"

text \<open>
  \<open>ClusterLifecycleHandlerFuncs\<close>: a field is \<open>True\<close> when the function is not nil. A
  call of the function is an effect.
\<close>

record ClusterLifecycleHandlerFuncs =
  ClusterAvailable :: bool
  ClusterUnavailable :: bool

text \<open>
  \<open>federatedInformerImpl\<close>. The two Go maps are association lists whose keys are kept
  distinct by \<open>AList.update\<close> and \<open>AList.delete\<close>; the order of the list is the order in
  which a \<open>range\<close> over the map visits it. \<open>nextChan\<close> is the allocator of channels and
  \<open>effects\<close> the record of effects so far, oldest first. The mutex is not modelled: the
  methods run one at a time.
\<close>

record 'spec federatedInformerImpl =
  clusterInformer :: "'spec informer"
  targetInformerFactory ::
    "'spec FederatedCluster \<Rightarrow> Config \<Rightarrow> error + ('spec Store \<times> Controller)"
  targetInformers :: "(string \<times> 'spec informer) list"
  configFactory :: "'spec FederatedCluster \<Rightarrow> error + Config"
  clusterClients :: "(string \<times> Client) list"
  nextChan :: chan
  effects :: "'spec effect list"

section \<open>Cluster conditions\<close>

fun IsClusterReady_loop :: "ClusterCondition list \<Rightarrow> bool" where
  "IsClusterReady_loop [] = False"
| "IsClusterReady_loop (condition # rest) =
     (if Type condition = ClusterReady \<and> CondStatus condition = ConditionTrue then True
      else IsClusterReady_loop rest)"

definition IsClusterReady :: "FederatedClusterStatus \<Rightarrow> bool" where
  "IsClusterReady clusterStatus = IsClusterReady_loop (Conditions clusterStatus)"

fun IsClusterJoined_loop :: "ClusterCondition list \<Rightarrow> bool" where
  "IsClusterJoined_loop [] = False"
| "IsClusterJoined_loop (condition # rest) =
     (if Type condition = ClusterJoined \<and> CondStatus condition = ConditionTrue then True
      else IsClusterJoined_loop rest)"

definition IsClusterJoined :: "FederatedClusterStatus \<Rightarrow> bool" where
  "IsClusterJoined clusterStatus = IsClusterJoined_loop (Conditions clusterStatus)"

section \<open>Channels\<close>

text \<open>\<open>close(c)\<close>: panics on the nil channel and on a channel that is closed already.\<close>

definition close ::
  "chan option \<Rightarrow> 'spec federatedInformerImpl \<Rightarrow> panic + 'spec federatedInformerImpl" where
  "close c f =
     (case c of
        None \<Rightarrow> Inl CloseOfNilChannel
      | Some ch \<Rightarrow>
          if Close ch \<in> set (effects f) then Inl CloseOfClosedChannel
          else Inr (f\<lparr>effects := effects f @ [Close ch]\<rparr>))"

section \<open>Start and Stop\<close>

fun Stop_loop ::
  "(string \<times> 'spec informer) list \<Rightarrow> 'spec federatedInformerImpl
     \<Rightarrow> panic + 'spec federatedInformerImpl" where
  "Stop_loop [] f = Inr f"
| "Stop_loop ((key, informer) # rest) f =
     (case close (stopChan informer) f of
        Inl p \<Rightarrow> Inl p
      | Inr f' \<Rightarrow>
          Stop_loop rest (f'\<lparr>targetInformers := AList.delete key (targetInformers f')\<rparr>))"

definition Stop :: "'spec federatedInformerImpl \<Rightarrow> panic + 'spec federatedInformerImpl" where
  "Stop f =
     (case close (stopChan (clusterInformer f)) f of
        Inl p \<Rightarrow> Inl p
      | Inr f' \<Rightarrow> Stop_loop (targetInformers f') f')"

definition Start :: "'spec federatedInformerImpl \<Rightarrow> 'spec federatedInformerImpl" where
  "Start f =
     f\<lparr>clusterInformer := (clusterInformer f)\<lparr>stopChan := Some (nextChan f)\<rparr>,
       nextChan := Suc (nextChan f),
       effects := effects f @ [GoRun (nextChan f)]\<rparr>"

section \<open>Registry view\<close>

definition getClusterUnlocked ::
  "'spec federatedInformerImpl \<Rightarrow> string
     \<Rightarrow> 'spec FederatedCluster option \<times> bool \<times> error option" where
  "getClusterUnlocked f key =
     (case store_GetByKey (store (clusterInformer f)) key of
        (ob, exist, err) \<Rightarrow>
          if exist \<and> err = None then
            (case ob of
               Some (ClusterObj cluster) \<Rightarrow> (Some cluster, True, None)
             | _ \<Rightarrow>
                 (None, False, Some (Errorf ''wrong data in FederatedInformerImpl cluster store'')))
          else (None, False, err))"

definition getReadyClusterUnlocked ::
  "'spec federatedInformerImpl \<Rightarrow> string
     \<Rightarrow> 'spec FederatedCluster option \<times> bool \<times> error option" where
  "getReadyClusterUnlocked f key =
     (case getClusterUnlocked f key of
        (cluster, exist, err) \<Rightarrow>
          if exist \<and> err = None then
            (case cluster of
               Some c \<Rightarrow> if IsClusterReady (Status c) then (Some c, True, None)
                         else (None, False, None)
             | None \<Rightarrow> (None, False, None))
          else (None, False, err))"

definition getConfigForClusterUnlocked ::
  "'spec federatedInformerImpl \<Rightarrow> string \<Rightarrow> error + Config" where
  "getConfigForClusterUnlocked f clusterName =
     (case getReadyClusterUnlocked f clusterName of
        (cluster, found, err) \<Rightarrow>
          if found \<and> err = None then
            (case cluster of
               Some c \<Rightarrow> configFactory f c
             | None \<Rightarrow> Inl (Errorf (''cluster '' @ clusterName @ '' not found'')))
          else (case err of
                  Some e \<Rightarrow> Inl e
                | None \<Rightarrow> Inl (Errorf (''cluster '' @ clusterName @ '' not found''))))"


fun getJoinedClusters_loop ::
  "bool \<Rightarrow> 'spec obj list \<Rightarrow> 'spec FederatedCluster list
     \<Rightarrow> error + 'spec FederatedCluster list" where
  "getJoinedClusters_loop onlyReady [] result = Inr result"
| "getJoinedClusters_loop onlyReady (item # items) result =
     (case item of
        ClusterObj cluster \<Rightarrow>
          if IsClusterJoined (Status cluster) \<and> (\<not> onlyReady \<or> IsClusterReady (Status cluster))
          then getJoinedClusters_loop onlyReady items (result @ [cluster])
          else getJoinedClusters_loop onlyReady items result
      | _ \<Rightarrow> Inl (Errorf ''wrong data in FederatedInformerImpl cluster store''))"

definition getJoinedClusters ::
  "'spec federatedInformerImpl \<Rightarrow> bool \<Rightarrow> error + 'spec FederatedCluster list" where
  "getJoinedClusters f onlyReady =
     getJoinedClusters_loop onlyReady (store_List (store (clusterInformer f))) []"


definition GetJoinedClusters ::
  "'spec federatedInformerImpl \<Rightarrow> error + 'spec FederatedCluster list" where
  "GetJoinedClusters f = getJoinedClusters f False"

section \<open>Per-cluster informers\<close>

definition addCluster ::
  "'spec federatedInformerImpl \<Rightarrow> 'spec FederatedCluster \<Rightarrow> 'spec federatedInformerImpl" where
  "addCluster f cluster =
     (case getConfigForClusterUnlocked f (Name cluster) of
        Inr config \<Rightarrow>
          (case targetInformerFactory f cluster config of
             Inl err \<Rightarrow> f
           | Inr (st, ctl) \<Rightarrow>
               f\<lparr>targetInformers :=
                    AList.update (Name cluster)
                      \<lparr>controller = ctl, store = st, stopChan = Some (nextChan f)\<rparr>
                      (targetInformers f),
                  nextChan := Suc (nextChan f),
                  effects := effects f @ [GoRun (nextChan f)]\<rparr>)
      | Inl err \<Rightarrow> f)"

definition deleteCluster ::
  "'spec federatedInformerImpl \<Rightarrow> 'spec FederatedCluster
     \<Rightarrow> panic + 'spec federatedInformerImpl" where
  "deleteCluster f cluster =
     (case (case map_of (targetInformers f) (Name cluster) of
              Some targetInformer \<Rightarrow> close (stopChan targetInformer) f
            | None \<Rightarrow> Inr f) of
        Inl p \<Rightarrow> Inl p
      | Inr f' \<Rightarrow>
          Inr (f'\<lparr>targetInformers := AList.delete (Name cluster) (targetInformers f'),
                  clusterClients := AList.delete (Name cluster) (clusterClients f')\<rparr>))"

section \<open>The federated store\<close>

definition ListFromCluster ::
  "'spec federatedInformerImpl \<Rightarrow> string \<Rightarrow> error + 'spec obj list" where
  "ListFromCluster f clusterName =
     (case map_of (targetInformers f) clusterName of
        Some targetInformer \<Rightarrow> Inr ([] @ store_List (store targetInformer))
      | None \<Rightarrow> Inr [])"

definition GetByKey ::
  "'spec federatedInformerImpl \<Rightarrow> string \<Rightarrow> string
     \<Rightarrow> 'spec obj option \<times> bool \<times> error option" where
  "GetByKey f clusterName key =
     (case map_of (targetInformers f) clusterName of
        Some targetInformer \<Rightarrow> store_GetByKey (store targetInformer) key
      | None \<Rightarrow> (None, False, Some (Errorf (''cluster '' @ clusterName @ '' not found''))))"

fun GetFromAllClusters_loop ::
  "string \<Rightarrow> (string \<times> 'spec informer) list \<Rightarrow> 'spec FederatedObject list
     \<Rightarrow> error + 'spec FederatedObject list" where
  "GetFromAllClusters_loop key [] result = Inr result"
| "GetFromAllClusters_loop key ((clusterName, targetInformer) # rest) result =
     (case store_GetByKey (store targetInformer) key of
        (val, exist, err) \<Rightarrow>
          (case err of
             Some e \<Rightarrow> Inl e
           | None \<Rightarrow>
               if exist then
                 GetFromAllClusters_loop key rest
                   (result @ [\<lparr>Object = val, ClusterName = clusterName\<rparr>])
               else GetFromAllClusters_loop key rest result))"

definition GetFromAllClusters ::
  "'spec federatedInformerImpl \<Rightarrow> string \<Rightarrow> error + 'spec FederatedObject list" where
  "GetFromAllClusters f key = GetFromAllClusters_loop key (targetInformers f) []"

text \<open>
  \<open>GetKeyFor\<close>: the key function \<open>cache.DeletionHandlingMetaNamespaceKeyFunc\<close> belongs
  to the client library; it is the parameter \<open>keyFunc\<close>, with Go's pair of results.
\<close>

definition GetKeyFor :: "('spec obj \<Rightarrow> string \<times> error option) \<Rightarrow> 'spec obj \<Rightarrow> string" where
  "GetKeyFor keyFunc item = (case keyFunc item of (key, _) \<Rightarrow> key)"

fun ClustersSynced_collect ::
  "(string \<times> 'spec informer) list \<Rightarrow> 'spec FederatedCluster list \<Rightarrow> 'spec informer list
     \<Rightarrow> bool \<times> 'spec informer list" where
  "ClustersSynced_collect tis [] informersToCheck = (True, informersToCheck)"
| "ClustersSynced_collect tis (cluster # rest) informersToCheck =
     (case map_of tis (Name cluster) of
        Some targetInformer \<Rightarrow>
          ClustersSynced_collect tis rest (informersToCheck @ [targetInformer])
      | None \<Rightarrow> (False, []))"

fun ClustersSynced_check :: "'spec informer list \<Rightarrow> bool" where
  "ClustersSynced_check [] = True"
| "ClustersSynced_check (informerToCheck # rest) =
     (if \<not> HasSynced (controller informerToCheck) then False else ClustersSynced_check rest)"

definition ClustersSynced ::
  "'spec federatedInformerImpl \<Rightarrow> 'spec FederatedCluster list \<Rightarrow> bool" where
  "ClustersSynced f clusters =
     (case (if length (targetInformers f) \<noteq> length clusters then (False, [])
            else ClustersSynced_collect (targetInformers f) clusters []) of
        (okSoFar, informersToCheck) \<Rightarrow>
          if \<not> okSoFar then False else ClustersSynced_check informersToCheck)"

definition ClusterSynced :: "'spec federatedInformerImpl \<Rightarrow> string \<Rightarrow> bool" where
  "ClusterSynced f clusterName =
     (case map_of (targetInformers f) clusterName of
        Some targetInformer \<Rightarrow> HasSynced (controller targetInformer)
      | None \<Rightarrow> False)"

section \<open>The direct-fetch helper\<close>


section \<open>The handlers of the cluster informer\<close>

text \<open>
  The handlers that \<open>NewFederatedInformer\<close> registers. A lifecycle function is supplied
  by the caller: its call is recorded as an effect, with its arguments, and what it does
  is outside the model, so the informer is the same after the call as before it.
\<close>

definition perform ::
  "'spec effect \<Rightarrow> 'spec federatedInformerImpl \<Rightarrow> 'spec federatedInformerImpl" where
  "perform e f = f\<lparr>effects := effects f @ [e]\<rparr>"

definition getClusterData :: "'spec federatedInformerImpl \<Rightarrow> string \<Rightarrow> 'spec obj list" where
  "getClusterData f name =
     (case ListFromCluster f name of
        Inl err \<Rightarrow> []
      | Inr data \<Rightarrow> data)"

definition DeleteFunc ::
  "ClusterLifecycleHandlerFuncs \<Rightarrow> 'spec federatedInformerImpl \<Rightarrow> 'spec obj
     \<Rightarrow> panic + 'spec federatedInformerImpl" where
  "DeleteFunc clusterLifecycle f old =
     (case old of
        ClusterObj oldCluster \<Rightarrow>
          (let data = (if ClusterUnavailable clusterLifecycle
                       then getClusterData f (Name oldCluster) else [])
           in case deleteCluster f oldCluster of
                Inl p \<Rightarrow> Inl p
              | Inr f1 \<Rightarrow>
                  if ClusterUnavailable clusterLifecycle
                  then Inr (perform (CallClusterUnavailable oldCluster data) f1)
                  else Inr f1)
      | _ \<Rightarrow> Inr f)"

definition AddFunc ::
  "ClusterLifecycleHandlerFuncs \<Rightarrow> 'spec federatedInformerImpl \<Rightarrow> 'spec obj
     \<Rightarrow> panic + 'spec federatedInformerImpl" where
  "AddFunc clusterLifecycle f cur =
     (case cur of
        ClusterObj curCluster \<Rightarrow>
          if IsClusterReady (Status curCluster) then
            (let f1 = addCluster f curCluster
             in if ClusterAvailable clusterLifecycle
                then Inr (perform (CallClusterAvailable curCluster) f1)
                else Inr f1)
          else Inr f
      | _ \<Rightarrow> Inl NilPointerDereference)"

definition UpdateFunc ::
  "ClusterLifecycleHandlerFuncs \<Rightarrow> 'spec federatedInformerImpl \<Rightarrow> 'spec obj \<Rightarrow> 'spec obj
     \<Rightarrow> panic + 'spec federatedInformerImpl" where
  "UpdateFunc clusterLifecycle f old cur =
     (case old of
        ClusterObj oldCluster \<Rightarrow>
          (case cur of
             ClusterObj curCluster \<Rightarrow>
               if DeletionTimestamp oldCluster = None \<and> DeletionTimestamp curCluster \<noteq> None
               then
                 (if ClusterUnavailable clusterLifecycle
                  then Inr (perform (CallClusterUnavailable oldCluster
                                       (getClusterData f (Name oldCluster))) f)
                  else Inr f)
               else if IsClusterReady (Status oldCluster) \<noteq> IsClusterReady (Status curCluster)
                       \<or> Spec oldCluster \<noteq> Spec curCluster
                       \<or> Labels oldCluster \<noteq> Labels curCluster
                       \<or> Annotations oldCluster \<noteq> Annotations curCluster
               then
                 (let data = (if ClusterUnavailable clusterLifecycle
                              then getClusterData f (Name oldCluster) else [])
                  in case deleteCluster f oldCluster of
                       Inl p \<Rightarrow> Inl p
                     | Inr f1 \<Rightarrow>
                         (let f2 = (if ClusterUnavailable clusterLifecycle
                                    then perform (CallClusterUnavailable oldCluster data) f1
                                    else f1)
                          in if IsClusterReady (Status curCluster) then
                               (let f3 = addCluster f2 curCluster
                                in if ClusterAvailable clusterLifecycle
                                   then Inr (perform (CallClusterAvailable curCluster) f3)
                                   else Inr f3)
                             else Inr f2))
               else Inr f
           | _ \<Rightarrow> Inr f)
      | _ \<Rightarrow> Inr f)"

text \<open>
  The struct that \<open>NewFederatedInformer\<close> builds: both maps empty, the cluster informer
  not started. The two factories are closures over functions of other files
  (\<open>NewResourceClient\<close>, \<open>NewManagedResourceInformer\<close>,
  \<open>BuildClusterConfigWithGenericClient\<close>), and the store and the controller of the
  cluster informer come from \<open>NewGenericInformerWithEventHandler\<close>: they are parameters.
\<close>

definition NewFederatedInformer ::
  "('spec FederatedCluster \<Rightarrow> Config \<Rightarrow> error + ('spec Store \<times> Controller))
     \<Rightarrow> ('spec FederatedCluster \<Rightarrow> error + Config) \<Rightarrow> 'spec Store \<Rightarrow> Controller
     \<Rightarrow> 'spec federatedInformerImpl" where
  "NewFederatedInformer factory cf clusterStore clusterController =
     \<lparr>clusterInformer =
        \<lparr>controller = clusterController, store = clusterStore, stopChan = None\<rparr>,
      targetInformerFactory = factory,
      targetInformers = [],
      configFactory = cf,
      clusterClients = [],
      nextChan = 0,
      effects = []\<rparr>"

section \<open>The invariant of the target informers\<close>

text \<open>
  The state of the target informers that the methods keep: the names are distinct, as
  the keys of a map are, and every target informer has a channel of its own, handed
  out by the allocator, that has not been closed. The channels that have been closed
  were handed out by the allocator too.
\<close>

definition handlesOpen :: "'spec federatedInformerImpl \<Rightarrow> bool" where
  "handlesOpen f =
     (distinct (map fst (targetInformers f))
      \<and> distinct (map (\<lambda>(n, h). stopChan h) (targetInformers f))
      \<and> list_all (\<lambda>(n, h). case stopChan h of
                               None \<Rightarrow> False
                             | Some ch \<Rightarrow> ch < nextChan f \<and> Close ch \<notin> set (effects f))
           (targetInformers f)
      \<and> list_all (\<lambda>e. case e of Close ch \<Rightarrow> ch < nextChan f | _ \<Rightarrow> True) (effects f))"

section \<open>A small federation\<close>

text \<open>
  Three member clusters \<open>a\<close>, \<open>b\<close> and \<open>c\<close>. The informer of \<open>a\<close> mirrors one object
  that carries no label, the informer of \<open>b\<close> is empty and has not synced, and the store
  of \<open>c\<close> answers every lookup with an error.
\<close>

definition exampleCluster :: "string \<Rightarrow> bool \<Rightarrow> bool \<Rightarrow> string FederatedCluster" where
  "exampleCluster name joined ready =
     \<lparr>Name = name, Labels = None, Annotations = None, DeletionTimestamp = None,
      Spec = ''https://'' @ name,
      Status = \<lparr>Conditions =
        [\<lparr>Type = ClusterJoined,
          CondStatus = (if joined then ConditionTrue else ConditionFalse)\<rparr>,
         \<lparr>Type = ClusterReady,
          CondStatus = (if ready then ConditionTrue else ConditionFalse)\<rparr>]\<rparr>\<rparr>"

definition clusterA :: "string FederatedCluster" where
  "clusterA = exampleCluster ''a'' True True"

definition clusterB :: "string FederatedCluster" where
  "clusterB = exampleCluster ''b'' True True"

definition clusterC :: "string FederatedCluster" where
  "clusterC = exampleCluster ''c'' True True"

definition exampleObject :: Unstructured where
  "exampleObject = \<lparr>ObjNamespace = ''default'', ObjName = ''web'', ObjLabels = []\<rparr>"

definition memberStore :: "string Store" where
  "memberStore =
     \<lparr>store_List = [UnstructuredObj exampleObject],
      store_GetByKey = (\<lambda>key. if key = ''default/web''
                              then (Some (UnstructuredObj exampleObject), True, None)
                              else (None, False, None))\<rparr>"

definition emptyStore :: "string Store" where
  "emptyStore = \<lparr>store_List = [], store_GetByKey = (\<lambda>key. (None, False, None))\<rparr>"

definition brokenStore :: "string Store" where
  "brokenStore =
     \<lparr>store_List = [],
      store_GetByKey = (\<lambda>key. (None, False, Some (Errorf ''store unavailable'')))\<rparr>"

definition clusterStore :: "string FederatedCluster list \<Rightarrow> string Store" where
  "clusterStore cs =
     \<lparr>store_List = map ClusterObj cs,
      store_GetByKey = (\<lambda>key. case find (\<lambda>c. Name c = key) cs of
                                 Some c \<Rightarrow> (Some (ClusterObj c), True, None)
                               | None \<Rightarrow> (None, False, None))\<rparr>"

definition exampleFactory ::
  "string FederatedCluster \<Rightarrow> Config \<Rightarrow> error + (string Store \<times> Controller)" where
  "exampleFactory cluster config =
     (if Name cluster = ''a'' then Inr (memberStore, \<lparr>HasSynced = True\<rparr>)
      else if Name cluster = ''b'' then Inr (emptyStore, \<lparr>HasSynced = False\<rparr>)
      else Inr (brokenStore, \<lparr>HasSynced = True\<rparr>))"

text \<open>The informer as built and started, with the clusters \<open>cs\<close> in the registry.\<close>

definition exampleInformer ::
  "string FederatedCluster list \<Rightarrow> string federatedInformerImpl" where
  "exampleInformer cs =
     Start (NewFederatedInformer exampleFactory (\<lambda>c. Inr (Config (Spec c)))
              (clusterStore cs) \<lparr>HasSynced = True\<rparr>)"

definition fedA :: "string federatedInformerImpl" where
  "fedA = addCluster (exampleInformer [clusterA, clusterB, clusterC]) clusterA"

definition fedAB :: "string federatedInformerImpl" where
  "fedAB = addCluster fedA clusterB"

definition fedABC :: "string federatedInformerImpl" where
  "fedABC = addCluster fedAB clusterC"

definition bothHandlers :: ClusterLifecycleHandlerFuncs where
  "bothHandlers = \<lparr>ClusterAvailable = True, ClusterUnavailable = True\<rparr>"

text \<open>
  A key function of the shape of the client library's: namespace and name of an object
  that has them, the name of a cluster, and the empty key with an error otherwise.
\<close>

definition exampleKeyFunc :: "string obj \<Rightarrow> string \<times> error option" where
  "exampleKeyFunc item =
     (case item of
        ClusterObj c \<Rightarrow> (Name c, None)
      | UnstructuredObj u \<Rightarrow>
          (if ObjNamespace u = [] then ObjName u else ObjNamespace u @ ''/'' @ ObjName u, None)
      | OtherObj t \<Rightarrow> ([], Some (Errorf ''object has no meta'')))"








text \<open>The state that \<open>Stop\<close> leaves behind when it is called on \<open>fedAB\<close>.\<close>

definition fedStopped :: "string federatedInformerImpl" where
  "fedStopped =
     fedAB\<lparr>targetInformers := [],
           effects := [GoRun 0, GoRun 1, GoRun 2, Close 0, Close 1, Close 2]\<rparr>"

text \<open>
  The informer after the add event of \<open>a\<close>, with both handlers registered.
\<close>

definition fedAdded :: "string federatedInformerImpl" where
  "fedAdded = perform (CallClusterAvailable clusterA) fedA"

text \<open>The registry store after the cluster informer has seen the clusters \<open>cs\<close>.\<close>

definition withRegistry ::
  "string FederatedCluster list \<Rightarrow> string federatedInformerImpl \<Rightarrow> string federatedInformerImpl"
  where
  "withRegistry cs f = f\<lparr>clusterInformer := (clusterInformer f)\<lparr>store := clusterStore cs\<rparr>\<rparr>"

definition clusterA2 :: "string FederatedCluster" where
  "clusterA2 = clusterA\<lparr>Spec := ''https://a.example''\<rparr>"

section \<open>The example federation, computed\<close>

lemmas config_defs =
  getConfigForClusterUnlocked_def getReadyClusterUnlocked_def getClusterUnlocked_def
  IsClusterReady_def IsClusterJoined_def

lemma fedA_eq:
  "fedA =
     \<lparr>clusterInformer =
        \<lparr>controller = \<lparr>HasSynced = True\<rparr>,
         store = clusterStore [clusterA, clusterB, clusterC], stopChan = Some 0\<rparr>,
      targetInformerFactory = exampleFactory,
      targetInformers =
        [(''a'', \<lparr>controller = \<lparr>HasSynced = True\<rparr>, store = memberStore, stopChan = Some 1\<rparr>)],
      configFactory = (\<lambda>c. Inr (Config (Spec c))),
      clusterClients = [],
      nextChan = 2,
      effects = [GoRun 0, GoRun 1]\<rparr>"
  by (simp add: fedA_def addCluster_def config_defs exampleInformer_def NewFederatedInformer_def Start_def
      clusterStore_def clusterA_def clusterB_def clusterC_def exampleCluster_def exampleFactory_def)

lemma fedAB_eq:
  "fedAB =
     \<lparr>clusterInformer =
        \<lparr>controller = \<lparr>HasSynced = True\<rparr>,
         store = clusterStore [clusterA, clusterB, clusterC], stopChan = Some 0\<rparr>,
      targetInformerFactory = exampleFactory,
      targetInformers =
        [(''a'', \<lparr>controller = \<lparr>HasSynced = True\<rparr>, store = memberStore, stopChan = Some 1\<rparr>),
         (''b'', \<lparr>controller = \<lparr>HasSynced = False\<rparr>, store = emptyStore, stopChan = Some 2\<rparr>)],
      configFactory = (\<lambda>c. Inr (Config (Spec c))),
      clusterClients = [],
      nextChan = 3,
      effects = [GoRun 0, GoRun 1, GoRun 2]\<rparr>"
  by (simp add: fedAB_def fedA_eq addCluster_def config_defs
      clusterStore_def clusterA_def clusterB_def clusterC_def exampleCluster_def exampleFactory_def)

lemma fedABC_eq:
  "fedABC =
     \<lparr>clusterInformer =
        \<lparr>controller = \<lparr>HasSynced = True\<rparr>,
         store = clusterStore [clusterA, clusterB, clusterC], stopChan = Some 0\<rparr>,
      targetInformerFactory = exampleFactory,
      targetInformers =
        [(''a'', \<lparr>controller = \<lparr>HasSynced = True\<rparr>, store = memberStore, stopChan = Some 1\<rparr>),
         (''b'', \<lparr>controller = \<lparr>HasSynced = False\<rparr>, store = emptyStore, stopChan = Some 2\<rparr>),
         (''c'', \<lparr>controller = \<lparr>HasSynced = True\<rparr>, store = brokenStore, stopChan = Some 3\<rparr>)],
      configFactory = (\<lambda>c. Inr (Config (Spec c))),
      clusterClients = [],
      nextChan = 4,
      effects = [GoRun 0, GoRun 1, GoRun 2, GoRun 3]\<rparr>"
  by (simp add: fedABC_def fedAB_eq addCluster_def config_defs
      clusterStore_def clusterA_def clusterB_def clusterC_def exampleCluster_def exampleFactory_def)

section \<open>The federated store\<close>

subsection \<open>Lookup in all clusters\<close>

lemma GetFromAllClusters_loop_ok:
  "\<forall>(n, h) \<in> set tis. snd (snd (store_GetByKey (store h) key)) = None \<Longrightarrow>
   GetFromAllClusters_loop key tis acc =
     Inr (acc @ map (\<lambda>(n, h). \<lparr>Object = fst (store_GetByKey (store h) key), ClusterName = n\<rparr>)
                 (filter (\<lambda>(n, h). fst (snd (store_GetByKey (store h) key))) tis))"
proof (induction tis arbitrary: acc)
  case Nil
  then show ?case by simp
next
  case (Cons p tis)
  obtain n h where p: "p = (n, h)" by (cases p)
  obtain v ex er where g: "store_GetByKey (store h) key = (v, ex, er)"
    by (cases "store_GetByKey (store h) key")
  from Cons.prems p g have er: "er = None" by simp
  from Cons.prems have rest: "\<forall>(n, h) \<in> set tis. snd (snd (store_GetByKey (store h) key)) = None"
    by simp
  show ?case using Cons.IH [OF rest] p g er by simp
qed

lemma GetFromAllClusters_loop_err:
  "\<forall>(n, h) \<in> set pre. snd (snd (store_GetByKey (store h) key)) = None \<Longrightarrow>
   snd (snd (store_GetByKey (store h0) key)) = Some e \<Longrightarrow>
   GetFromAllClusters_loop key (pre @ (n0, h0) # post) acc = Inl e"
proof (induction pre arbitrary: acc)
  case Nil
  then show ?case by (cases "store_GetByKey (store h0) key") simp
next
  case (Cons p pre)
  obtain n h where p: "p = (n, h)" by (cases p)
  obtain v ex er where g: "store_GetByKey (store h) key = (v, ex, er)"
    by (cases "store_GetByKey (store h) key")
  from Cons.prems p g have er: "er = None" by simp
  from Cons.prems have rest: "\<forall>(n, h) \<in> set pre. snd (snd (store_GetByKey (store h) key)) = None"
    by simp
  show ?case using Cons.IH [OF rest Cons.prems(2)] p g er by simp
qed

lemma count_entries:
  "distinct (map fst tis) \<Longrightarrow>
   length (filter (\<lambda>ob. ClusterName ob = name)
      (map (\<lambda>(n, h). \<lparr>Object = g h, ClusterName = n\<rparr>) (filter (\<lambda>(n, h). P h) tis))) =
   (case map_of tis name of Some h \<Rightarrow> if P h then 1 else 0 | None \<Rightarrow> 0)"
proof (induction tis)
  case Nil
  then show ?case by simp
next
  case (Cons p tis)
  obtain n h where p: "p = (n, h)" by (cases p)
  from Cons.prems p have d: "distinct (map fst tis)" and nin: "n \<notin> fst ` set tis" by auto
  from nin have none: "map_of tis n = None" by (simp add: map_of_eq_None_iff)
  show ?case using Cons.IH [OF d] p none by auto
qed

text \<open>
  Claim C8. \<open>GetFromAllClusters\<close> visits the target informers in the order of the
  \<open>range\<close>. When no store answers the lookup with an error, the result is one entry,
  tagged with the name of the cluster, for each informer whose store has the key and none
  for the others: with the names distinct, as the keys of a map are, the entries of a given
  cluster number one or zero. When a store answers with an error, the error of the first
  such store in the order of the visit is the result, and no list is returned with it.
\<close>

theorem GetFromAllClusters_union_fail_fast:
  "((\<forall>(n, h) \<in> set (targetInformers f). snd (snd (store_GetByKey (store h) key)) = None) \<longrightarrow>
      (\<exists>result.
         GetFromAllClusters f key = Inr result
         \<and> result =
             map (\<lambda>(n, h). \<lparr>Object = fst (store_GetByKey (store h) key), ClusterName = n\<rparr>)
               (filter (\<lambda>(n, h). fst (snd (store_GetByKey (store h) key))) (targetInformers f))
         \<and> (distinct (map fst (targetInformers f)) \<longrightarrow>
              (\<forall>name. length (filter (\<lambda>ob. ClusterName ob = name) result) =
                 (case map_of (targetInformers f) name of
                    Some h \<Rightarrow> if fst (snd (store_GetByKey (store h) key)) then 1 else 0
                  | None \<Rightarrow> 0)))))
   \<and> (\<forall>pre n0 h0 post e.
         targetInformers f = pre @ (n0, h0) # post
         \<and> (\<forall>(n, h) \<in> set pre. snd (snd (store_GetByKey (store h) key)) = None)
         \<and> snd (snd (store_GetByKey (store h0) key)) = Some e
         \<longrightarrow> GetFromAllClusters f key = Inl e)"
  unfolding GetFromAllClusters_def
  using GetFromAllClusters_loop_ok [of "targetInformers f" key "[]"]
        GetFromAllClusters_loop_err [of _ key _ _ _ _ "[]"]
        count_entries [of "targetInformers f" _ "\<lambda>h. fst (store_GetByKey (store h) key)" "\<lambda>h. fst (snd (store_GetByKey (store h) key))"]
  by auto

theorem GetFromAllClusters_union_fail_fast_witness:
  "list_all (\<lambda>(n, h). snd (snd (store_GetByKey (store h) ''default/web'')) = None)
     (targetInformers fedAB)
   \<and> distinct (map fst (targetInformers fedAB))
   \<and> GetFromAllClusters fedAB ''default/web'' =
       Inr [\<lparr>Object = Some (UnstructuredObj exampleObject), ClusterName = ''a''\<rparr>]
   \<and> targetInformers fedABC =
       targetInformers fedAB
         @ [(''c'', \<lparr>controller = \<lparr>HasSynced = True\<rparr>, store = brokenStore,
                    stopChan = Some 3\<rparr>)]
   \<and> snd (snd (store_GetByKey brokenStore ''default/web'')) = Some (Errorf ''store unavailable'')
   \<and> GetFromAllClusters fedABC ''default/web'' = Inl (Errorf ''store unavailable'')"
proof -
  let ?k = "''default/web''"
  let ?hc = "\<lparr>controller = \<lparr>HasSynced = True\<rparr>, store = brokenStore, stopChan = Some (3::nat)\<rparr>"
  have ok: "\<forall>(n, h) \<in> set (targetInformers fedAB).
              snd (snd (store_GetByKey (store h) ?k)) = None"
    by (simp add: fedAB_eq memberStore_def emptyStore_def)
  have d: "distinct (map fst (targetInformers fedAB))"
    by (simp add: fedAB_eq)
  have split: "targetInformers fedABC = targetInformers fedAB @ (''c'', ?hc) # []"
    by (simp add: fedAB_eq fedABC_eq)
  have er: "snd (snd (store_GetByKey (store ?hc) ?k)) = Some (Errorf ''store unavailable'')"
    by (simp add: brokenStore_def)
  from GetFromAllClusters_union_fail_fast [of fedAB ?k] ok
  have "GetFromAllClusters fedAB ?k =
          Inr (map (\<lambda>(n, h). \<lparr>Object = fst (store_GetByKey (store h) ?k), ClusterName = n\<rparr>)
                 (filter (\<lambda>(n, h). fst (snd (store_GetByKey (store h) ?k)))
                    (targetInformers fedAB)))"
    by blast
  then have r1: "GetFromAllClusters fedAB ?k =
          Inr [\<lparr>Object = Some (UnstructuredObj exampleObject), ClusterName = ''a''\<rparr>]"
    by (simp add: fedAB_eq memberStore_def emptyStore_def)
  from GetFromAllClusters_union_fail_fast [of fedABC ?k] split ok er
  have r2: "GetFromAllClusters fedABC ?k = Inl (Errorf ''store unavailable'')"
    by blast
  show ?thesis using ok d r1 split er r2 by (simp add: list_all_iff)
qed

subsection \<open>A cluster without an informer\<close>

text \<open>
  Claim C9. For a cluster name that has no target informer, \<open>ListFromCluster\<close> returns
  the empty list and no error, and \<open>GetByKey\<close> returns an error.
\<close>

theorem missing_handle_list_empty_get_error:
  "map_of (targetInformers f) clusterName = None \<Longrightarrow>
     ListFromCluster f clusterName = Inr [] \<and>
     GetByKey f clusterName key =
       (None, False, Some (Errorf (''cluster '' @ clusterName @ '' not found'')))"
  by (simp add: ListFromCluster_def GetByKey_def)

theorem missing_handle_list_empty_get_error_witness:
  "map_of (targetInformers fedAB) ''c'' = None \<and>
   ListFromCluster fedAB ''c'' = Inr [] \<and>
   GetByKey fedAB ''c'' ''default/web'' = (None, False, Some (Errorf ''cluster c not found''))"
  using missing_handle_list_empty_get_error [of fedAB "''c''" "''default/web''"]
  by (simp add: fedAB_eq)

subsection \<open>Keys\<close>

text \<open>
  Claim C10. \<open>GetKeyFor\<close> returns the string of the key function and nothing else: the
  error of the key function is dropped. When the key function fails with the empty
  string, as the library's does, the result is the empty string, the same as for an item
  whose key is the empty string.
\<close>

theorem GetKeyFor_discards_error:
  "GetKeyFor keyFunc item = fst (keyFunc item)
   \<and> (\<forall>e. keyFunc item = ('''', Some e) \<longrightarrow> GetKeyFor keyFunc item = '''')
   \<and> (\<forall>e item'. keyFunc item = ('''', Some e) \<and> keyFunc item' = ('''', None)
         \<longrightarrow> GetKeyFor keyFunc item = GetKeyFor keyFunc item')"
  by (simp add: GetKeyFor_def split: prod.splits)

theorem GetKeyFor_discards_error_witness:
  "exampleKeyFunc (OtherObj ''tombstone'') = ([], Some (Errorf ''object has no meta''))
   \<and> exampleKeyFunc (UnstructuredObj \<lparr>ObjNamespace = [], ObjName = [], ObjLabels = []\<rparr>)
       = ([], None)
   \<and> GetKeyFor exampleKeyFunc (OtherObj ''tombstone'') = []
   \<and> GetKeyFor exampleKeyFunc (OtherObj ''tombstone'')
       = GetKeyFor exampleKeyFunc
           (UnstructuredObj \<lparr>ObjNamespace = [], ObjName = [], ObjLabels = []\<rparr>)"
proof -
  let ?u = "UnstructuredObj \<lparr>ObjNamespace = [], ObjName = [], ObjLabels = []\<rparr> :: string obj"
  have a: "exampleKeyFunc (OtherObj ''tombstone'') = ([], Some (Errorf ''object has no meta''))"
    by (simp add: exampleKeyFunc_def)
  have b: "exampleKeyFunc ?u = ([], None)"
    by (simp add: exampleKeyFunc_def)
  from GetKeyFor_discards_error [of exampleKeyFunc "OtherObj ''tombstone''"] a b
  have c: "GetKeyFor exampleKeyFunc (OtherObj ''tombstone'') = []
           \<and> GetKeyFor exampleKeyFunc (OtherObj ''tombstone'') = GetKeyFor exampleKeyFunc ?u"
    by blast
  show ?thesis using a b c by blast
qed

section \<open>The handlers\<close>

lemma getClusterData_eq:
  "getClusterData f name =
     (case map_of (targetInformers f) name of Some h \<Rightarrow> store_List (store h) | None \<Rightarrow> [])"
  by (simp add: getClusterData_def ListFromCluster_def split: option.splits)

text \<open>
  Claim C6. An update whose old cluster has no deletion timestamp and whose new cluster
  has one leaves the informer as it is: the target informers, the client cache, the
  cluster informer and the channels are unchanged and no channel is closed. The only
  effect is the call of \<open>ClusterUnavailable\<close>, when it is registered, with the old
  cluster and the objects that the store of its target informer lists (none when the
  cluster has no target informer).
\<close>

theorem UpdateFunc_deletion_mark_keeps_handle:
  "DeletionTimestamp oldCluster = None \<Longrightarrow> DeletionTimestamp curCluster \<noteq> None \<Longrightarrow>
   \<exists>f'. UpdateFunc clusterLifecycle f (ClusterObj oldCluster) (ClusterObj curCluster) = Inr f'
     \<and> targetInformers f' = targetInformers f
     \<and> clusterClients f' = clusterClients f
     \<and> nextChan f' = nextChan f
     \<and> clusterInformer f' = clusterInformer f
     \<and> effects f' =
         effects f @
           (if ClusterUnavailable clusterLifecycle
            then [CallClusterUnavailable oldCluster
                    (case map_of (targetInformers f) (Name oldCluster) of
                       Some h \<Rightarrow> store_List (store h)
                     | None \<Rightarrow> [])]
            else [])"
  by (simp add: UpdateFunc_def perform_def getClusterData_eq)

theorem UpdateFunc_deletion_mark_keeps_handle_witness:
  "DeletionTimestamp clusterA = None
   \<and> DeletionTimestamp (clusterA\<lparr>DeletionTimestamp := Some 5\<rparr>) \<noteq> None
   \<and> UpdateFunc bothHandlers fedA (ClusterObj clusterA)
        (ClusterObj (clusterA\<lparr>DeletionTimestamp := Some 5\<rparr>))
      = Inr (fedA\<lparr>effects :=
               [GoRun 0, GoRun 1,
                CallClusterUnavailable clusterA [UnstructuredObj exampleObject]]\<rparr>)"
proof -
  have a: "DeletionTimestamp clusterA = None"
    by (simp add: clusterA_def exampleCluster_def)
  have b: "DeletionTimestamp (clusterA\<lparr>DeletionTimestamp := Some 5\<rparr>) \<noteq> None"
    by simp
  from UpdateFunc_deletion_mark_keeps_handle [OF a b, of bothHandlers fedA]
  obtain f' where
    r: "UpdateFunc bothHandlers fedA (ClusterObj clusterA)
          (ClusterObj (clusterA\<lparr>DeletionTimestamp := Some 5\<rparr>)) = Inr f'"
    by blast
  have "UpdateFunc bothHandlers fedA (ClusterObj clusterA)
          (ClusterObj (clusterA\<lparr>DeletionTimestamp := Some 5\<rparr>))
        = Inr (fedA\<lparr>effects :=
               [GoRun 0, GoRun 1,
                CallClusterUnavailable clusterA [UnstructuredObj exampleObject]]\<rparr>)"
    using r
    by (simp add: UpdateFunc_def perform_def getClusterData_eq a bothHandlers_def fedA_eq
        clusterA_def exampleCluster_def memberStore_def)
  with a b show ?thesis by blast
qed

section \<open>The registry view\<close>






section \<open>Sync state of the stores\<close>

lemma ClustersSynced_collect_eq:
  "ClustersSynced_collect tis clusters acc =
     (if \<forall>c \<in> set clusters. map_of tis (Name c) \<noteq> None
      then (True, acc @ map (\<lambda>c. the (map_of tis (Name c))) clusters)
      else (False, []))"
  by (induction clusters arbitrary: acc) (auto split: option.splits)

lemma ClustersSynced_check_eq:
  "ClustersSynced_check xs = (\<forall>x \<in> set xs. HasSynced (controller x))"
  by (induction xs) auto

lemma ClustersSynced_eq:
  "ClustersSynced f clusters =
     (length (targetInformers f) = length clusters
      \<and> (\<forall>c \<in> set clusters. \<exists>h. map_of (targetInformers f) (Name c) = Some h
             \<and> HasSynced (controller h)))"
proof (cases "length (targetInformers f) = length clusters")
  case False
  then show ?thesis by (simp add: ClustersSynced_def)
next
  case True
  show ?thesis
  proof (cases "\<forall>c \<in> set clusters. map_of (targetInformers f) (Name c) \<noteq> None")
    case all: True
    have "ClustersSynced f clusters =
            (\<forall>c \<in> set clusters. HasSynced (controller (the (map_of (targetInformers f) (Name c)))))"
      using True all
      by (simp add: ClustersSynced_def ClustersSynced_collect_eq ClustersSynced_check_eq)
    also have "\<dots> = (\<forall>c \<in> set clusters. \<exists>h. map_of (targetInformers f) (Name c) = Some h
             \<and> HasSynced (controller h))"
      using all by force
    finally show ?thesis using True by simp
  next
    case none: False
    have "\<not> ClustersSynced f clusters"
      using True none
      by (auto simp: ClustersSynced_def ClustersSynced_collect_eq)
    moreover have "\<not> (\<forall>c \<in> set clusters. \<exists>h. map_of (targetInformers f) (Name c) = Some h
             \<and> HasSynced (controller h))"
      using none by force
    ultimately show ?thesis by simp
  qed
qed

text \<open>
  Claim C4, as amended. For a list of clusters whose names are pairwise distinct,
  \<open>ClustersSynced\<close> is true exactly when the names of the list are the names of the
  target informers, in the same number, and every target informer has synced.
\<close>

theorem ClustersSynced_exact_for_distinct_names:
  assumes dc: "distinct (map Name clusters)"
    and dt: "distinct (map fst (targetInformers f))"
  shows "ClustersSynced f clusters =
           (set (map Name clusters) = set (map fst (targetInformers f))
            \<and> length clusters = length (targetInformers f)
            \<and> (\<forall>(n, h) \<in> set (targetInformers f). HasSynced (controller h)))"
proof
  assume cs: "ClustersSynced f clusters"
  then have len: "length (targetInformers f) = length clusters"
    and each: "\<forall>c \<in> set clusters. \<exists>h. map_of (targetInformers f) (Name c) = Some h
                 \<and> HasSynced (controller h)"
    by (simp_all add: ClustersSynced_eq)
  have sub: "set (map Name clusters) \<subseteq> set (map fst (targetInformers f))"
  proof
    fix n assume "n \<in> set (map Name clusters)"
    then obtain c where "c \<in> set clusters" "n = Name c" by auto
    with each obtain h where "map_of (targetInformers f) n = Some h" by blast
    then have "(n, h) \<in> set (targetInformers f)" by (rule map_of_SomeD)
    then show "n \<in> set (map fst (targetInformers f))" by force
  qed
  have "card (set (map Name clusters)) = length (map Name clusters)"
    using dc by (rule distinct_card)
  moreover have "card (set (map fst (targetInformers f))) = length (map fst (targetInformers f))"
    using dt by (rule distinct_card)
  ultimately have "card (set (map Name clusters)) = card (set (map fst (targetInformers f)))"
    using len by simp
  with sub have eq: "set (map Name clusters) = set (map fst (targetInformers f))"
    by (simp add: card_subset_eq)
  have "\<forall>(n, h) \<in> set (targetInformers f). HasSynced (controller h)"
  proof (clarify)
    fix n h assume nh: "(n, h) \<in> set (targetInformers f)"
    then have "n \<in> set (map Name clusters)" using eq by force
    then obtain c where c: "c \<in> set clusters" "n = Name c" by auto
    with each obtain h' where h': "map_of (targetInformers f) n = Some h'"
      "HasSynced (controller h')" by blast
    from dt nh have "map_of (targetInformers f) n = Some h" by simp
    with h' show "HasSynced (controller h)" by simp
  qed
  with eq len show "set (map Name clusters) = set (map fst (targetInformers f))
            \<and> length clusters = length (targetInformers f)
            \<and> (\<forall>(n, h) \<in> set (targetInformers f). HasSynced (controller h))"
    by simp
next
  assume r: "set (map Name clusters) = set (map fst (targetInformers f))
            \<and> length clusters = length (targetInformers f)
            \<and> (\<forall>(n, h) \<in> set (targetInformers f). HasSynced (controller h))"
  have "\<forall>c \<in> set clusters. \<exists>h. map_of (targetInformers f) (Name c) = Some h
             \<and> HasSynced (controller h)"
  proof
    fix c assume "c \<in> set clusters"
    then have "Name c \<in> set (map fst (targetInformers f))" using r by force
    then obtain h where "(Name c, h) \<in> set (targetInformers f)" by force
    with dt r show "\<exists>h. map_of (targetInformers f) (Name c) = Some h \<and> HasSynced (controller h)"
      by force
  qed
  with r show "ClustersSynced f clusters" by (simp add: ClustersSynced_eq)
qed

theorem ClustersSynced_exact_for_distinct_names_witness:
  "distinct (map Name [clusterA])
   \<and> distinct (map fst (targetInformers fedA))
   \<and> ClustersSynced fedA [clusterA]
   \<and> \<not> ClustersSynced fedA [clusterB]
   \<and> \<not> ClustersSynced fedAB [clusterA, clusterB]"
proof -
  have n: "Name clusterA = ''a''" "Name clusterB = ''b''"
    by (simp_all add: clusterA_def clusterB_def exampleCluster_def)
  have d1: "distinct (map Name [clusterA])" "distinct (map Name [clusterB])"
    "distinct (map Name [clusterA, clusterB])"
    by (simp_all add: n)
  have d2: "distinct (map fst (targetInformers fedA))" "distinct (map fst (targetInformers fedAB))"
    by (simp_all add: fedA_eq fedAB_eq)
  have "ClustersSynced fedA [clusterA]"
    using ClustersSynced_exact_for_distinct_names [OF d1(1) d2(1)]
    by (simp add: n fedA_eq)
  moreover have "\<not> ClustersSynced fedA [clusterB]"
    using ClustersSynced_exact_for_distinct_names [OF d1(2) d2(1)]
    by (simp add: n fedA_eq)
  moreover have "\<not> ClustersSynced fedAB [clusterA, clusterB]"
    using ClustersSynced_exact_for_distinct_names [OF d1(3) d2(2)]
    by (simp add: n fedAB_eq)
  ultimately show ?thesis using d1 d2 by blast
qed

text \<open>
  The claim as stated covers every list. With \<open>a\<close> and \<open>b\<close> active, \<open>b\<close> not synced,
  and the list naming \<open>a\<close> twice, the lengths agree and every name of the list is
  found, so the result is true although \<open>b\<close> is not in the list.
\<close>

theorem ClustersSynced_duplicate_counterexample:
  "map fst (targetInformers fedAB) = [''a'', ''b'']
   \<and> map Name [clusterA, clusterA] = [''a'', ''a'']
   \<and> ClusterSynced fedAB ''b'' = False
   \<and> ClustersSynced fedAB [clusterA, clusterA] = True"
  by (simp add: fedAB_eq ClustersSynced_def ClusterSynced_def clusterA_def exampleCluster_def)

section \<open>The direct-fetch helper\<close>




section \<open>Stopping twice\<close>

lemma Stop_loop_keeps:
  "Stop_loop tis f = Inr f' \<Longrightarrow>
   clusterInformer f' = clusterInformer f \<and> set (effects f) \<subseteq> set (effects f')"
proof (induction tis arbitrary: f)
  case Nil
  then show ?case by simp
next
  case (Cons p tis)
  obtain key h where p: "p = (key, h)" by (cases p)
  from Cons.prems p obtain f1 where
    c: "close (stopChan h) f = Inr f1"
    and l: "Stop_loop tis (f1\<lparr>targetInformers := AList.delete key (targetInformers f1)\<rparr>) = Inr f'"
    by (auto split: sum.splits)
  from c have "clusterInformer f1 = clusterInformer f \<and> set (effects f) \<subseteq> set (effects f1)"
    by (auto simp: close_def split: option.splits if_splits)
  with Cons.IH [OF l] show ?case by auto
qed

lemma Stop_after_Stop:
  assumes "Stop f = Inr f'"
  shows "Stop f' = Inl CloseOfClosedChannel"
proof -
  from assms obtain f1 where
    c: "close (stopChan (clusterInformer f)) f = Inr f1"
    and l: "Stop_loop (targetInformers f1) f1 = Inr f'"
    by (auto simp: Stop_def split: sum.splits)
  from c obtain ch where ch: "stopChan (clusterInformer f) = Some ch"
    and f1: "f1 = f\<lparr>effects := effects f @ [Close ch]\<rparr>"
    by (auto simp: close_def split: option.splits if_splits)
  from Stop_loop_keeps [OF l] f1 ch
  have "stopChan (clusterInformer f') = Some ch" and "Close ch \<in> set (effects f')"
    by auto
  then show ?thesis by (simp add: Stop_def close_def)
qed

text \<open>
  Claim C2. The claim asks that a second \<open>Stop\<close> does not panic and closes no channel
  again. \<open>Stop\<close> on the federation of \<open>a\<close> and \<open>b\<close> closes the channel of the cluster
  informer and the channels of both target informers, once each, and empties the map; a
  second \<open>Stop\<close> closes the channel of the cluster informer again, which panics.
\<close>

theorem Stop_twice_panics:
  "Stop fedAB = Inr fedStopped \<and> Stop fedStopped = Inl CloseOfClosedChannel"
proof -
  have "Stop fedAB = Inr fedStopped"
    by (simp add: Stop_def close_def fedStopped_def fedAB_eq)
  then show ?thesis using Stop_after_Stop by blast
qed

section \<open>Target informers and their channels\<close>

lemma handlesOpen_iff:
  "handlesOpen f =
     (distinct (map fst (targetInformers f))
      \<and> distinct (map (\<lambda>(n, h). stopChan h) (targetInformers f))
      \<and> (\<forall>(n, h) \<in> set (targetInformers f).
            \<exists>ch. stopChan h = Some ch \<and> ch < nextChan f \<and> Close ch \<notin> set (effects f))
      \<and> (\<forall>ch. Close ch \<in> set (effects f) \<longrightarrow> ch < nextChan f))"
proof -
  have a: "list_all (\<lambda>(n, h). case stopChan h of
                               None \<Rightarrow> False
                             | Some ch \<Rightarrow> ch < nextChan f \<and> Close ch \<notin> set (effects f))
             (targetInformers f)
           = (\<forall>(n, h) \<in> set (targetInformers f).
                \<exists>ch. stopChan h = Some ch \<and> ch < nextChan f \<and> Close ch \<notin> set (effects f))"
    by (auto simp: list_all_iff split: option.splits)
  have b: "list_all (\<lambda>e. case e of Close ch \<Rightarrow> ch < nextChan f | _ \<Rightarrow> True) (effects f)
           = (\<forall>ch. Close ch \<in> set (effects f) \<longrightarrow> ch < nextChan f)"
    by (auto simp: list_all_iff split: effect.splits)
  show ?thesis unfolding handlesOpen_def a b by simp
qed

lemma handlesOpen_lookup:
  assumes "handlesOpen f" and "map_of (targetInformers f) name = Some h"
  shows "\<exists>ch. stopChan h = Some ch \<and> ch < nextChan f \<and> Close ch \<notin> set (effects f)"
proof -
  from assms(2) have "(name, h) \<in> set (targetInformers f)" by (rule map_of_SomeD)
  with assms(1) show ?thesis
    unfolding handlesOpen_iff by blast
qed

lemma set_update_subset: "set (AList.update k v al) \<subseteq> insert (k, v) (set al)"
  by (induction al) auto

lemma distinct_map_update:
  assumes "distinct (map g al)" and "g (k, v) \<notin> g ` set al"
  shows "distinct (map g (AList.update k v al))"
  using assms
proof (induction al)
  case Nil
  then show ?case by simp
next
  case (Cons p al)
  obtain k' v' where p: "p = (k', v')" by (cases p)
  show ?case
  proof (cases "k' = k")
    case True
    with Cons.prems p show ?thesis by simp
  next
    case False
    from Cons.prems have d: "distinct (map g al)" and n: "g (k, v) \<notin> g ` set al"
      and np: "g p \<notin> g ` set al" and ne: "g (k, v) \<noteq> g p"
      by auto
    have "g p \<notin> g ` set (AList.update k v al)"
      using set_update_subset [of k v al] np ne by auto
    with Cons.IH [OF d n] False p show ?thesis by simp
  qed
qed

lemma addCluster_cases:
  "addCluster f cluster = f
   \<or> (\<exists>st ctl. addCluster f cluster =
         f\<lparr>targetInformers :=
              AList.update (Name cluster)
                \<lparr>controller = ctl, store = st, stopChan = Some (nextChan f)\<rparr>
                (targetInformers f),
            nextChan := Suc (nextChan f),
            effects := effects f @ [GoRun (nextChan f)]\<rparr>)"
  by (auto simp: addCluster_def split: sum.splits)

lemma handlesOpen_addCluster:
  assumes "handlesOpen f"
  shows "handlesOpen (addCluster f cluster)"
proof -
  from addCluster_cases [of f cluster] show ?thesis
  proof
    assume "addCluster f cluster = f"
    with assms show ?thesis by simp
  next
    assume "\<exists>st ctl. addCluster f cluster =
         f\<lparr>targetInformers :=
              AList.update (Name cluster)
                \<lparr>controller = ctl, store = st, stopChan = Some (nextChan f)\<rparr>
                (targetInformers f),
            nextChan := Suc (nextChan f),
            effects := effects f @ [GoRun (nextChan f)]\<rparr>"
    then obtain st ctl where eq: "addCluster f cluster =
         f\<lparr>targetInformers :=
              AList.update (Name cluster)
                \<lparr>controller = ctl, store = st, stopChan = Some (nextChan f)\<rparr>
                (targetInformers f),
            nextChan := Suc (nextChan f),
            effects := effects f @ [GoRun (nextChan f)]\<rparr>"
      by blast
    let ?h = "\<lparr>controller = ctl, store = st, stopChan = Some (nextChan f)\<rparr>"
    let ?g = "\<lambda>(n, h). stopChan (h :: 'a informer)"
    let ?tis' = "AList.update (Name cluster) ?h (targetInformers f)"
    from assms have d1: "distinct (map fst (targetInformers f))"
      and d2: "distinct (map ?g (targetInformers f))"
      and all: "\<forall>(n, h) \<in> set (targetInformers f).
                  \<exists>ch. stopChan h = Some ch \<and> ch < nextChan f \<and> Close ch \<notin> set (effects f)"
      and cl: "\<forall>ch. Close ch \<in> set (effects f) \<longrightarrow> ch < nextChan f"
      unfolding handlesOpen_iff by blast+
    have fresh: "?g (Name cluster, ?h) \<notin> ?g ` set (targetInformers f)"
    proof
      assume "?g (Name cluster, ?h) \<in> ?g ` set (targetInformers f)"
      then obtain n h where "(n, h) \<in> set (targetInformers f)"
        "stopChan h = Some (nextChan f)" by force
      with all show False by force
    qed
    have a: "distinct (map fst ?tis')"
      using d1 by (rule distinct_update)
    have b: "distinct (map ?g ?tis')"
      using d2 fresh by (rule distinct_map_update)
    have c: "\<forall>(n, h) \<in> set ?tis'.
               \<exists>ch. stopChan h = Some ch \<and> ch < Suc (nextChan f)
                  \<and> Close ch \<notin> set (effects f @ [GoRun (nextChan f)])"
    proof (clarify)
      fix n h assume "(n, h) \<in> set ?tis'"
      with set_update_subset [of "Name cluster" ?h "targetInformers f"]
      have "(n, h) = (Name cluster, ?h) \<or> (n, h) \<in> set (targetInformers f)" by auto
      then show "\<exists>ch. stopChan h = Some ch \<and> ch < Suc (nextChan f)
                  \<and> Close ch \<notin> set (effects f @ [GoRun (nextChan f)])"
      proof
        assume "(n, h) = (Name cluster, ?h)"
        then have "stopChan h = Some (nextChan f)" by auto
        moreover have "Close (nextChan f) \<notin> set (effects f)"
          using cl by auto
        ultimately show ?thesis by simp
      next
        assume "(n, h) \<in> set (targetInformers f)"
        with all obtain ch where "stopChan h = Some ch" "ch < nextChan f"
          "Close ch \<notin> set (effects f)" by blast
        then show ?thesis by simp
      qed
    qed
    have d: "\<forall>ch. Close ch \<in> set (effects f @ [GoRun (nextChan f)]) \<longrightarrow> ch < Suc (nextChan f)"
      using cl by (simp add: less_Suc_eq)
    show ?thesis
      unfolding eq handlesOpen_iff using a b c d by simp
  qed
qed

lemma deleteCluster_eq:
  assumes "handlesOpen f"
  shows "deleteCluster f cluster =
           Inr (f\<lparr>effects := effects f @
                    (case map_of (targetInformers f) (Name cluster) of
                       Some h \<Rightarrow> (case stopChan h of Some ch \<Rightarrow> [Close ch] | None \<Rightarrow> [])
                     | None \<Rightarrow> []),
                  targetInformers := AList.delete (Name cluster) (targetInformers f),
                  clusterClients := AList.delete (Name cluster) (clusterClients f)\<rparr>)"
proof (cases "map_of (targetInformers f) (Name cluster)")
  case None
  then show ?thesis by (simp add: deleteCluster_def)
next
  case (Some h)
  from handlesOpen_lookup [OF assms Some] obtain ch where
    "stopChan h = Some ch" "Close ch \<notin> set (effects f)" by blast
  with Some show ?thesis by (simp add: deleteCluster_def close_def)
qed

lemma handlesOpen_deleteCluster:
  assumes "handlesOpen f" and "deleteCluster f cluster = Inr f1"
  shows "handlesOpen f1"
proof -
  let ?g = "\<lambda>(n, h). stopChan (h :: 'a informer)"
  let ?tis = "targetInformers f"
  let ?name = "Name cluster"
  from assms(1) have d1: "distinct (map fst ?tis)"
    and d2: "distinct (map ?g ?tis)"
    and all: "\<forall>(n, h) \<in> set ?tis.
                \<exists>ch. stopChan h = Some ch \<and> ch < nextChan f \<and> Close ch \<notin> set (effects f)"
    and cl: "\<forall>ch. Close ch \<in> set (effects f) \<longrightarrow> ch < nextChan f"
    unfolding handlesOpen_iff by blast+
  have f1: "f1 = f\<lparr>effects := effects f @
                    (case map_of ?tis ?name of
                       Some h \<Rightarrow> (case stopChan h of Some ch \<Rightarrow> [Close ch] | None \<Rightarrow> [])
                     | None \<Rightarrow> []),
                  targetInformers := AList.delete ?name ?tis,
                  clusterClients := AList.delete ?name (clusterClients f)\<rparr>"
    using deleteCluster_eq [OF assms(1), of cluster] assms(2) by simp
  have a: "distinct (map fst (AList.delete ?name ?tis))"
    using d1 by (rule distinct_delete)
  have b: "distinct (map ?g (AList.delete ?name ?tis))"
    using d2 by (simp add: AList.delete_eq distinct_map_filter)
  have c: "\<forall>(n, h) \<in> set (AList.delete ?name ?tis).
             \<exists>ch. stopChan h = Some ch \<and> ch < nextChan f
                \<and> Close ch \<notin> set (effects f @
                    (case map_of ?tis ?name of
                       Some h \<Rightarrow> (case stopChan h of Some ch \<Rightarrow> [Close ch] | None \<Rightarrow> [])
                     | None \<Rightarrow> []))"
  proof (clarify)
    fix n h assume nh: "(n, h) \<in> set (AList.delete ?name ?tis)"
    then have mem: "(n, h) \<in> set ?tis" and ne: "n \<noteq> ?name"
      by (auto simp: AList.delete_eq)
    from all mem obtain ch where ch: "stopChan h = Some ch" "ch < nextChan f"
      "Close ch \<notin> set (effects f)" by blast
    have "Close ch \<notin> set (case map_of ?tis ?name of
                       Some h \<Rightarrow> (case stopChan h of Some ch \<Rightarrow> [Close ch] | None \<Rightarrow> [])
                     | None \<Rightarrow> [])"
    proof (cases "map_of ?tis ?name")
      case None
      then show ?thesis by simp
    next
      case (Some h0)
      then have mem0: "(?name, h0) \<in> set ?tis" by (rule map_of_SomeD)
      have "stopChan h0 \<noteq> stopChan h"
      proof
        assume "stopChan h0 = stopChan h"
        then have "?g (?name, h0) = ?g (n, h)" by simp
        with d2 mem mem0 have "(?name, h0) = (n, h)"
          by (meson distinct_map inj_onD)
        with ne show False by simp
      qed
      with Some ch show ?thesis by (auto split: option.splits)
    qed
    with ch show "\<exists>ch. stopChan h = Some ch \<and> ch < nextChan f
                \<and> Close ch \<notin> set (effects f @
                    (case map_of ?tis ?name of
                       Some h \<Rightarrow> (case stopChan h of Some ch \<Rightarrow> [Close ch] | None \<Rightarrow> [])
                     | None \<Rightarrow> []))"
      by simp
  qed
  have d: "\<forall>ch. Close ch \<in> set (effects f @
                    (case map_of ?tis ?name of
                       Some h \<Rightarrow> (case stopChan h of Some ch \<Rightarrow> [Close ch] | None \<Rightarrow> [])
                     | None \<Rightarrow> [])) \<longrightarrow> ch < nextChan f"
  proof (cases "map_of ?tis ?name")
    case None
    with cl show ?thesis by simp
  next
    case (Some h0)
    from handlesOpen_lookup [OF assms(1) Some] obtain ch0 where
      "stopChan h0 = Some ch0" "ch0 < nextChan f" by blast
    with Some cl show ?thesis by auto
  qed
  show ?thesis
    unfolding f1 handlesOpen_iff using a b c d by simp
qed

text \<open>
  The invariant holds of the informer as built, and the start and the three handlers of
  the cluster informer keep it.
\<close>

lemma handlesOpen_perform:
  "handlesOpen g \<Longrightarrow> \<forall>ch. e \<noteq> Close ch \<Longrightarrow> handlesOpen (perform e g)"
  unfolding handlesOpen_iff perform_def by fastforce

lemma handlesOpen_New:
  "handlesOpen (NewFederatedInformer factory cf registry registryController)"
  by (simp add: handlesOpen_def NewFederatedInformer_def)

lemma handlesOpen_Start: "handlesOpen f \<Longrightarrow> handlesOpen (Start f)"
  unfolding handlesOpen_iff Start_def by (fastforce simp: less_Suc_eq)

lemma handlesOpen_AddFunc:
  "handlesOpen f \<Longrightarrow> AddFunc clusterLifecycle f cur = Inr f' \<Longrightarrow> handlesOpen f'"
  by (auto simp: AddFunc_def Let_def handlesOpen_perform handlesOpen_addCluster
      split: obj.splits if_splits)

lemma handlesOpen_DeleteFunc:
  "handlesOpen f \<Longrightarrow> DeleteFunc clusterLifecycle f old = Inr f' \<Longrightarrow> handlesOpen f'"
  by (auto simp: DeleteFunc_def Let_def handlesOpen_perform
      split: obj.splits if_splits sum.splits dest: handlesOpen_deleteCluster)

lemma handlesOpen_UpdateFunc:
  "handlesOpen f \<Longrightarrow> UpdateFunc clusterLifecycle f old cur = Inr f' \<Longrightarrow> handlesOpen f'"
  by (auto simp: UpdateFunc_def Let_def handlesOpen_perform handlesOpen_addCluster
      split: obj.splits if_splits sum.splits dest: handlesOpen_deleteCluster)

lemma addCluster_effects:
  "effects (addCluster f cluster) =
     effects f @
       (case getConfigForClusterUnlocked f (Name cluster) of
          Inr config \<Rightarrow>
            (case targetInformerFactory f cluster config of
               Inr r \<Rightarrow> [GoRun (nextChan f)]
             | Inl err \<Rightarrow> [])
        | Inl err \<Rightarrow> [])"
  by (simp add: addCluster_def split: sum.splits prod.splits)

lemma addCluster_targetInformers:
  "targetInformers (addCluster f cluster) =
     (case getConfigForClusterUnlocked f (Name cluster) of
        Inr config \<Rightarrow>
          (case targetInformerFactory f cluster config of
             Inr (st, ctl) \<Rightarrow>
               AList.update (Name cluster)
                 \<lparr>controller = ctl, store = st, stopChan = Some (nextChan f)\<rparr>
                 (targetInformers f)
           | Inl err \<Rightarrow> targetInformers f)
      | Inl err \<Rightarrow> targetInformers f)"
  by (simp add: addCluster_def split: sum.splits prod.splits)

lemma addCluster_frame:
  "clusterClients (addCluster f cluster) = clusterClients f
   \<and> clusterInformer (addCluster f cluster) = clusterInformer f"
  by (simp add: addCluster_def split: sum.splits prod.splits)

text \<open>
  The replacement of a target informer by \<open>deleteCluster\<close> and then \<open>addCluster\<close>, as
  the update handler does it: the channel of the previous target informer is closed and
  its entry removed before the new one is recorded, and the new one has another channel.
\<close>

lemma deleteCluster_then_addCluster:
  assumes "handlesOpen f"
  shows "\<exists>f1. deleteCluster f cluster = Inr f1
           \<and> handlesOpen f1
           \<and> map_of (targetInformers f1) (Name cluster) = None
           \<and> (\<forall>h. map_of (targetInformers f) (Name cluster) = Some h \<longrightarrow>
                 (\<exists>ch install.
                    stopChan h = Some ch
                    \<and> effects f1 = effects f @ [Close ch]
                    \<and> effects (addCluster f1 cluster') = effects f @ [Close ch] @ install
                    \<and> handlesOpen (addCluster f1 cluster')
                    \<and> (\<forall>h'. map_of (targetInformers (addCluster f1 cluster')) (Name cluster)
                               = Some h' \<longrightarrow> stopChan h' \<noteq> Some ch)))"
proof -
  let ?f1 = "f\<lparr>effects := effects f @
                    (case map_of (targetInformers f) (Name cluster) of
                       Some h \<Rightarrow> (case stopChan h of Some ch \<Rightarrow> [Close ch] | None \<Rightarrow> [])
                     | None \<Rightarrow> []),
                  targetInformers := AList.delete (Name cluster) (targetInformers f),
                  clusterClients := AList.delete (Name cluster) (clusterClients f)\<rparr>"
  have del: "deleteCluster f cluster = Inr ?f1"
    using assms by (rule deleteCluster_eq)
  have open1: "handlesOpen ?f1"
    using assms del by (rule handlesOpen_deleteCluster)
  have gone: "map_of (targetInformers ?f1) (Name cluster) = None"
    by (simp add: delete_conv')
  have repl: "\<exists>ch install.
                stopChan h = Some ch
                \<and> effects ?f1 = effects f @ [Close ch]
                \<and> effects (addCluster ?f1 cluster') = effects f @ [Close ch] @ install
                \<and> handlesOpen (addCluster ?f1 cluster')
                \<and> (\<forall>h'. map_of (targetInformers (addCluster ?f1 cluster')) (Name cluster)
                           = Some h' \<longrightarrow> stopChan h' \<noteq> Some ch)"
    if h: "map_of (targetInformers f) (Name cluster) = Some h" for h
  proof -
    from handlesOpen_lookup [OF assms h] obtain ch where ch: "stopChan h = Some ch" by blast
    have e1: "effects ?f1 = effects f @ [Close ch]"
      using h ch by simp
    obtain install where e2: "effects (addCluster ?f1 cluster') = effects ?f1 @ install"
      using addCluster_effects [of ?f1 cluster'] by blast
    have open2: "handlesOpen (addCluster ?f1 cluster')"
      using open1 by (rule handlesOpen_addCluster)
    have "stopChan h' \<noteq> Some ch"
      if h': "map_of (targetInformers (addCluster ?f1 cluster')) (Name cluster) = Some h'" for h'
    proof
      assume "stopChan h' = Some ch"
      with handlesOpen_lookup [OF open2 h']
      have "Close ch \<notin> set (effects (addCluster ?f1 cluster'))" by auto
      with e1 e2 show False by simp
    qed
    with ch e1 e2 open2 show ?thesis by auto
  qed
  from del open1 gone repl show ?thesis by blast
qed

lemma fedAdded_eq:
  "fedAdded =
     \<lparr>clusterInformer =
        \<lparr>controller = \<lparr>HasSynced = True\<rparr>,
         store = clusterStore [clusterA, clusterB, clusterC], stopChan = Some 0\<rparr>,
      targetInformerFactory = exampleFactory,
      targetInformers =
        [(''a'', \<lparr>controller = \<lparr>HasSynced = True\<rparr>, store = memberStore, stopChan = Some 1\<rparr>)],
      configFactory = (\<lambda>c. Inr (Config (Spec c))),
      clusterClients = [],
      nextChan = 2,
      effects = [GoRun 0, GoRun 1, CallClusterAvailable clusterA]\<rparr>"
  by (simp add: fedAdded_def perform_def fedA_eq)

text \<open>
  Claim C3. The claim asks that whenever a target informer is installed for a name that
  has one, the channel of the previous one is closed before the new one is recorded,
  \<open>addCluster\<close> on a present entry included. \<open>addCluster\<close> closes nothing. The add
  event of \<open>a\<close> installs a target informer on channel 1; the delete event that carries
  a tombstone, not a cluster, is ignored by \<open>DeleteFunc\<close> and leaves the entry; the next
  add event of \<open>a\<close> overwrites the entry with a target informer on channel 2. Channel 1
  is never closed: the controller started on it keeps running beside the new one, and
  nothing in the map refers to it any more.
\<close>

theorem AddFunc_over_present_handle_leaks:
  "AddFunc bothHandlers (exampleInformer [clusterA, clusterB, clusterC]) (ClusterObj clusterA)
     = Inr fedAdded
   \<and> DeleteFunc bothHandlers fedAdded (OtherObj ''DeletedFinalStateUnknown'') = Inr fedAdded
   \<and> map_of (targetInformers fedAdded) ''a''
       = Some \<lparr>controller = \<lparr>HasSynced = True\<rparr>, store = memberStore, stopChan = Some 1\<rparr>
   \<and> map_sum id targetInformers (AddFunc bothHandlers fedAdded (ClusterObj clusterA))
       = Inr [(''a'', \<lparr>controller = \<lparr>HasSynced = True\<rparr>, store = memberStore,
                        stopChan = Some 2\<rparr>)]
   \<and> map_sum id effects (AddFunc bothHandlers fedAdded (ClusterObj clusterA))
       = Inr [GoRun 0, GoRun 1, CallClusterAvailable clusterA,
              GoRun 2, CallClusterAvailable clusterA]
   \<and> map_sum id (\<lambda>f'. Close 1 \<in> set (effects f'))
        (AddFunc bothHandlers fedAdded (ClusterObj clusterA))
       = Inr False"
proof -
  have r: "IsClusterReady (Status clusterA)"
    by (simp add: IsClusterReady_def clusterA_def exampleCluster_def)
  have a1: "AddFunc bothHandlers (exampleInformer [clusterA, clusterB, clusterC])
              (ClusterObj clusterA) = Inr fedAdded"
    using r by (simp add: AddFunc_def bothHandlers_def fedAdded_def fedA_def)
  have d: "DeleteFunc bothHandlers fedAdded (OtherObj ''DeletedFinalStateUnknown'')
             = Inr fedAdded"
    by (simp add: DeleteFunc_def)
  have m: "map_of (targetInformers fedAdded) ''a''
       = Some \<lparr>controller = \<lparr>HasSynced = True\<rparr>, store = memberStore, stopChan = Some 1\<rparr>"
    by (simp add: fedAdded_eq)
  have add: "addCluster fedAdded clusterA =
               fedAdded\<lparr>targetInformers :=
                   [(''a'', \<lparr>controller = \<lparr>HasSynced = True\<rparr>, store = memberStore,
                             stopChan = Some 2\<rparr>)],
                 nextChan := 3,
                 effects := [GoRun 0, GoRun 1, CallClusterAvailable clusterA, GoRun 2]\<rparr>"
    by (simp add: addCluster_def config_defs fedAdded_eq clusterStore_def clusterA_def
        clusterB_def clusterC_def exampleCluster_def exampleFactory_def)
  have a2: "AddFunc bothHandlers fedAdded (ClusterObj clusterA) =
              Inr (fedAdded\<lparr>targetInformers :=
                   [(''a'', \<lparr>controller = \<lparr>HasSynced = True\<rparr>, store = memberStore,
                             stopChan = Some 2\<rparr>)],
                 nextChan := 3,
                 effects := [GoRun 0, GoRun 1, CallClusterAvailable clusterA, GoRun 2,
                             CallClusterAvailable clusterA]\<rparr>)"
    using r unfolding AddFunc_def obj.case Let_def add
    by (simp add: bothHandlers_def perform_def)
  show ?thesis unfolding a2 using a1 d m by simp
qed

section \<open>The update handler\<close>

lemma getConfigForClusterUnlocked_cong:
  "clusterInformer f' = clusterInformer f \<Longrightarrow> configFactory f' = configFactory f \<Longrightarrow>
   getConfigForClusterUnlocked f' name = getConfigForClusterUnlocked f name"
proof -
  assume ci: "clusterInformer f' = clusterInformer f" and cf: "configFactory f' = configFactory f"
  have "getReadyClusterUnlocked f' name = getReadyClusterUnlocked f name"
    by (simp add: getReadyClusterUnlocked_def getClusterUnlocked_def ci)
  then show ?thesis
    unfolding getConfigForClusterUnlocked_def cf by simp
qed

text \<open>
  Claim C5, as amended. In a state that satisfies the invariant of the target informers,
  for an update that is not the setting of the deletion timestamp and in which readiness
  flips or the spec, the labels or the annotations differ, the handler returns and does
  this, in this order: it takes the snapshot when \<open>ClusterUnavailable\<close> is
  registered, closes the channel of the old target informer and removes it, calls
  \<open>ClusterUnavailable\<close> with the snapshot, and then, when the new cluster is ready,
  installs a new target informer and calls \<open>ClusterAvailable\<close>. The snapshot is the
  listing of the old target informer's store, taken before the removal. To install is to
  record the store and the controller that the factory returns under the name of the
  new cluster, with a fresh channel, and to start the controller on that channel; when
  the configuration or the factory fails nothing is recorded or started. The map of the
  target informers, the client cache and the cluster informer after the update are given
  in full.
\<close>

theorem UpdateFunc_replace_order:
  assumes "handlesOpen f"
    and "\<not> (DeletionTimestamp oldCluster = None \<and> DeletionTimestamp curCluster \<noteq> None)"
    and "IsClusterReady (Status oldCluster) \<noteq> IsClusterReady (Status curCluster)
         \<or> Spec oldCluster \<noteq> Spec curCluster
         \<or> Labels oldCluster \<noteq> Labels curCluster
         \<or> Annotations oldCluster \<noteq> Annotations curCluster"
  shows "\<exists>f'. UpdateFunc clusterLifecycle f (ClusterObj oldCluster) (ClusterObj curCluster)
              = Inr f'
           \<and> effects f' =
               effects f
               @ (case map_of (targetInformers f) (Name oldCluster) of
                    Some h \<Rightarrow> (case stopChan h of Some ch \<Rightarrow> [Close ch] | None \<Rightarrow> [])
                  | None \<Rightarrow> [])
               @ (if ClusterUnavailable clusterLifecycle
                  then [CallClusterUnavailable oldCluster
                          (case map_of (targetInformers f) (Name oldCluster) of
                             Some h \<Rightarrow> store_List (store h)
                           | None \<Rightarrow> [])]
                  else [])
               @ (if IsClusterReady (Status curCluster)
                  then (case getConfigForClusterUnlocked f (Name curCluster) of
                          Inr config \<Rightarrow>
                            (case targetInformerFactory f curCluster config of
                               Inr r \<Rightarrow> [GoRun (nextChan f)]
                             | Inl err \<Rightarrow> [])
                        | Inl err \<Rightarrow> [])
                  else [])
               @ (if IsClusterReady (Status curCluster) \<and> ClusterAvailable clusterLifecycle
                  then [CallClusterAvailable curCluster]
                  else [])
           \<and> targetInformers f' =
               (if IsClusterReady (Status curCluster)
                then (case getConfigForClusterUnlocked f (Name curCluster) of
                        Inr config \<Rightarrow>
                          (case targetInformerFactory f curCluster config of
                             Inr (st, ctl) \<Rightarrow>
                               AList.update (Name curCluster)
                                 \<lparr>controller = ctl, store = st, stopChan = Some (nextChan f)\<rparr>
                                 (AList.delete (Name oldCluster) (targetInformers f))
                           | Inl err \<Rightarrow> AList.delete (Name oldCluster) (targetInformers f))
                      | Inl err \<Rightarrow> AList.delete (Name oldCluster) (targetInformers f))
                else AList.delete (Name oldCluster) (targetInformers f))
           \<and> (\<forall>config st ctl.
                 IsClusterReady (Status curCluster)
                 \<and> getConfigForClusterUnlocked f (Name curCluster) = Inr config
                 \<and> targetInformerFactory f curCluster config = Inr (st, ctl)
                 \<longrightarrow> map_of (targetInformers f') (Name curCluster)
                       = Some \<lparr>controller = ctl, store = st, stopChan = Some (nextChan f)\<rparr>)
           \<and> clusterClients f' = AList.delete (Name oldCluster) (clusterClients f)
           \<and> clusterInformer f' = clusterInformer f
           \<and> (\<not> IsClusterReady (Status curCluster) \<longrightarrow>
                 map_of (targetInformers f') (Name oldCluster) = None)
           \<and> handlesOpen f'"
proof -
  let ?f1 = "f\<lparr>effects := effects f @
                    (case map_of (targetInformers f) (Name oldCluster) of
                       Some h \<Rightarrow> (case stopChan h of Some ch \<Rightarrow> [Close ch] | None \<Rightarrow> [])
                     | None \<Rightarrow> []),
                  targetInformers := AList.delete (Name oldCluster) (targetInformers f),
                  clusterClients := AList.delete (Name oldCluster) (clusterClients f)\<rparr>"
  let ?data = "case map_of (targetInformers f) (Name oldCluster) of
                 Some h \<Rightarrow> store_List (store h)
               | None \<Rightarrow> []"
  let ?f2 = "if ClusterUnavailable clusterLifecycle
             then perform (CallClusterUnavailable oldCluster ?data) ?f1 else ?f1"
  let ?f3 = "addCluster ?f2 curCluster"
  let ?f' = "if IsClusterReady (Status curCluster)
             then (if ClusterAvailable clusterLifecycle
                   then perform (CallClusterAvailable curCluster) ?f3 else ?f3)
             else ?f2"
  have del: "deleteCluster f oldCluster = Inr ?f1"
    using assms(1) by (rule deleteCluster_eq)
  have run: "UpdateFunc clusterLifecycle f (ClusterObj oldCluster) (ClusterObj curCluster)
               = Inr ?f'"
  proof -
    have c1: "(DeletionTimestamp oldCluster = None \<and> DeletionTimestamp curCluster \<noteq> None)
                = False"
      using assms(2) by simp
    have c2: "(IsClusterReady (Status oldCluster) \<noteq> IsClusterReady (Status curCluster)
                \<or> Spec oldCluster \<noteq> Spec curCluster
                \<or> Labels oldCluster \<noteq> Labels curCluster
                \<or> Annotations oldCluster \<noteq> Annotations curCluster) = True"
      using assms(3) by simp
    show ?thesis
      unfolding UpdateFunc_def obj.case c1 c2 if_False if_True del
      by (simp add: getClusterData_eq Let_def)
  qed
  have open1: "handlesOpen ?f1"
    using assms(1) del by (rule handlesOpen_deleteCluster)
  have open2: "handlesOpen ?f2"
    using open1 by (simp add: handlesOpen_perform)
  have open3: "handlesOpen ?f3"
    using open2 by (rule handlesOpen_addCluster)
  have open': "handlesOpen ?f'"
    using open2 open3 by (simp add: handlesOpen_perform)
  have cfg: "getConfigForClusterUnlocked ?f2 (Name curCluster)
               = getConfigForClusterUnlocked f (Name curCluster)"
    by (rule getConfigForClusterUnlocked_cong) (simp_all add: perform_def)
  have fac: "targetInformerFactory ?f2 = targetInformerFactory f"
    and nxt: "nextChan ?f2 = nextChan f"
    by (simp_all add: perform_def)
  have e2: "effects ?f2 = effects ?f1
              @ (if ClusterUnavailable clusterLifecycle
                 then [CallClusterUnavailable oldCluster ?data] else [])"
    by (simp add: perform_def)
  have e3: "effects ?f3 = effects ?f2
              @ (case getConfigForClusterUnlocked f (Name curCluster) of
                   Inr config \<Rightarrow>
                     (case targetInformerFactory f curCluster config of
                        Inr r \<Rightarrow> [GoRun (nextChan f)]
                      | Inl err \<Rightarrow> [])
                 | Inl err \<Rightarrow> [])"
    using addCluster_effects [of ?f2 curCluster] unfolding cfg fac nxt .
  have eff: "effects ?f' =
               effects f
               @ (case map_of (targetInformers f) (Name oldCluster) of
                    Some h \<Rightarrow> (case stopChan h of Some ch \<Rightarrow> [Close ch] | None \<Rightarrow> [])
                  | None \<Rightarrow> [])
               @ (if ClusterUnavailable clusterLifecycle
                  then [CallClusterUnavailable oldCluster ?data]
                  else [])
               @ (if IsClusterReady (Status curCluster)
                  then (case getConfigForClusterUnlocked f (Name curCluster) of
                          Inr config \<Rightarrow>
                            (case targetInformerFactory f curCluster config of
                               Inr r \<Rightarrow> [GoRun (nextChan f)]
                             | Inl err \<Rightarrow> [])
                        | Inl err \<Rightarrow> [])
                  else [])
               @ (if IsClusterReady (Status curCluster) \<and> ClusterAvailable clusterLifecycle
                  then [CallClusterAvailable curCluster]
                  else [])"
  proof (cases "IsClusterReady (Status curCluster)")
    case False
    then show ?thesis using e2 by simp
  next
    case True
    have "effects ?f' = effects ?f3
            @ (if ClusterAvailable clusterLifecycle then [CallClusterAvailable curCluster] else [])"
      using True by (simp add: perform_def)
    then show ?thesis using True e3 e2 by simp
  qed
  have gone: "\<not> IsClusterReady (Status curCluster) \<longrightarrow>
                map_of (targetInformers ?f') (Name oldCluster) = None"
    by (simp add: perform_def delete_conv')
  have t2: "targetInformers ?f2 = AList.delete (Name oldCluster) (targetInformers f)"
    by (simp add: perform_def)
  have t3: "targetInformers ?f3 =
              (case getConfigForClusterUnlocked f (Name curCluster) of
                 Inr config \<Rightarrow>
                   (case targetInformerFactory f curCluster config of
                      Inr (st, ctl) \<Rightarrow>
                        AList.update (Name curCluster)
                          \<lparr>controller = ctl, store = st, stopChan = Some (nextChan f)\<rparr>
                          (AList.delete (Name oldCluster) (targetInformers f))
                    | Inl err \<Rightarrow> AList.delete (Name oldCluster) (targetInformers f))
               | Inl err \<Rightarrow> AList.delete (Name oldCluster) (targetInformers f))"
    using addCluster_targetInformers [of ?f2 curCluster] unfolding cfg fac nxt t2 .
  have tis: "targetInformers ?f' =
               (if IsClusterReady (Status curCluster)
                then (case getConfigForClusterUnlocked f (Name curCluster) of
                        Inr config \<Rightarrow>
                          (case targetInformerFactory f curCluster config of
                             Inr (st, ctl) \<Rightarrow>
                               AList.update (Name curCluster)
                                 \<lparr>controller = ctl, store = st, stopChan = Some (nextChan f)\<rparr>
                                 (AList.delete (Name oldCluster) (targetInformers f))
                           | Inl err \<Rightarrow> AList.delete (Name oldCluster) (targetInformers f))
                      | Inl err \<Rightarrow> AList.delete (Name oldCluster) (targetInformers f))
                else AList.delete (Name oldCluster) (targetInformers f))"
  proof (cases "IsClusterReady (Status curCluster)")
    case False
    then show ?thesis using t2 by simp
  next
    case True
    have "targetInformers ?f' = targetInformers ?f3"
      using True by (simp add: perform_def)
    then show ?thesis using True t3 by simp
  qed
  have inst: "\<forall>config st ctl.
                 IsClusterReady (Status curCluster)
                 \<and> getConfigForClusterUnlocked f (Name curCluster) = Inr config
                 \<and> targetInformerFactory f curCluster config = Inr (st, ctl)
                 \<longrightarrow> map_of (targetInformers ?f') (Name curCluster)
                       = Some \<lparr>controller = ctl, store = st, stopChan = Some (nextChan f)\<rparr>"
    unfolding tis by (simp add: update_conv')
  have cc: "clusterClients ?f' = AList.delete (Name oldCluster) (clusterClients f)"
    by (simp add: perform_def addCluster_frame)
  have ci: "clusterInformer ?f' = clusterInformer f"
    by (simp add: perform_def addCluster_frame)
  from run eff tis inst cc ci gone open' show ?thesis by blast
qed

theorem UpdateFunc_replace_order_witness:
  "handlesOpen fedA
   \<and> DeletionTimestamp (exampleCluster ''a'' True False) = None
   \<and> IsClusterReady (Status clusterA)
   \<and> \<not> IsClusterReady (Status (exampleCluster ''a'' True False))
   \<and> map_sum id effects
        (UpdateFunc bothHandlers fedA (ClusterObj clusterA)
           (ClusterObj (exampleCluster ''a'' True False)))
       = Inr [GoRun 0, GoRun 1, Close 1,
              CallClusterUnavailable clusterA [UnstructuredObj exampleObject]]
   \<and> map_sum id targetInformers
        (UpdateFunc bothHandlers fedA (ClusterObj clusterA)
           (ClusterObj (exampleCluster ''a'' True False)))
       = Inr []
   \<and> handlesOpen (withRegistry [clusterA2, clusterB, clusterC] fedA)
   \<and> DeletionTimestamp clusterA2 = None
   \<and> Spec clusterA \<noteq> Spec clusterA2
   \<and> IsClusterReady (Status clusterA2)
   \<and> map_sum id effects
        (UpdateFunc bothHandlers (withRegistry [clusterA2, clusterB, clusterC] fedA)
           (ClusterObj clusterA) (ClusterObj clusterA2))
       = Inr [GoRun 0, GoRun 1, Close 1,
              CallClusterUnavailable clusterA [UnstructuredObj exampleObject],
              GoRun 2, CallClusterAvailable clusterA2]
   \<and> map_sum id targetInformers
        (UpdateFunc bothHandlers (withRegistry [clusterA2, clusterB, clusterC] fedA)
           (ClusterObj clusterA) (ClusterObj clusterA2))
       = Inr [(''a'', \<lparr>controller = \<lparr>HasSynced = True\<rparr>, store = memberStore,
                        stopChan = Some 2\<rparr>)]"
proof -
  let ?cur = "exampleCluster ''a'' True False"
  let ?g = "withRegistry [clusterA2, clusterB, clusterC] fedA"
  have o: "handlesOpen fedA"
    by (simp add: handlesOpen_def fedA_eq)
  have d: "DeletionTimestamp ?cur = None"
    by (simp add: exampleCluster_def)
  have r: "IsClusterReady (Status clusterA)"
    by (simp add: IsClusterReady_def clusterA_def exampleCluster_def)
  have nr: "\<not> IsClusterReady (Status ?cur)"
    by (simp add: IsClusterReady_def exampleCluster_def)
  have n: "Name clusterA = ''a''" "Name clusterA2 = ''a''"
    by (simp_all add: clusterA2_def clusterA_def exampleCluster_def)
  have a2: "\<not> (DeletionTimestamp clusterA = None \<and> DeletionTimestamp ?cur \<noteq> None)"
    using d by simp
  have a3: "IsClusterReady (Status clusterA) \<noteq> IsClusterReady (Status ?cur)
            \<or> Spec clusterA \<noteq> Spec ?cur
            \<or> Labels clusterA \<noteq> Labels ?cur
            \<or> Annotations clusterA \<noteq> Annotations ?cur"
    using r nr by simp
  from UpdateFunc_replace_order [OF o a2 a3, of bothHandlers]
  obtain f' where
    run: "UpdateFunc bothHandlers fedA (ClusterObj clusterA) (ClusterObj ?cur) = Inr f'"
    and eff: "effects f' =
               effects fedA
               @ (case map_of (targetInformers fedA) (Name clusterA) of
                    Some h \<Rightarrow> (case stopChan h of Some ch \<Rightarrow> [Close ch] | None \<Rightarrow> [])
                  | None \<Rightarrow> [])
               @ (if ClusterUnavailable bothHandlers
                  then [CallClusterUnavailable clusterA
                          (case map_of (targetInformers fedA) (Name clusterA) of
                             Some h \<Rightarrow> store_List (store h)
                           | None \<Rightarrow> [])]
                  else [])
               @ (if IsClusterReady (Status ?cur)
                  then (case getConfigForClusterUnlocked fedA (Name ?cur) of
                          Inr config \<Rightarrow>
                            (case targetInformerFactory fedA ?cur config of
                               Inr r \<Rightarrow> [GoRun (nextChan fedA)]
                             | Inl err \<Rightarrow> [])
                        | Inl err \<Rightarrow> [])
                  else [])
               @ (if IsClusterReady (Status ?cur) \<and> ClusterAvailable bothHandlers
                  then [CallClusterAvailable ?cur]
                  else [])"
    and tis: "targetInformers f' =
               (if IsClusterReady (Status ?cur)
                then (case getConfigForClusterUnlocked fedA (Name ?cur) of
                        Inr config \<Rightarrow>
                          (case targetInformerFactory fedA ?cur config of
                             Inr (st, ctl) \<Rightarrow>
                               AList.update (Name ?cur)
                                 \<lparr>controller = ctl, store = st, stopChan = Some (nextChan fedA)\<rparr>
                                 (AList.delete (Name clusterA) (targetInformers fedA))
                           | Inl err \<Rightarrow> AList.delete (Name clusterA) (targetInformers fedA))
                      | Inl err \<Rightarrow> AList.delete (Name clusterA) (targetInformers fedA))
                else AList.delete (Name clusterA) (targetInformers fedA))"
    by blast
  have e: "effects f' = [GoRun 0, GoRun 1, Close 1,
              CallClusterUnavailable clusterA [UnstructuredObj exampleObject]]"
    unfolding eff n using nr by (simp add: fedA_eq bothHandlers_def memberStore_def)
  have g: "targetInformers f' = []"
    unfolding tis n using nr by (simp add: fedA_eq)
  have og: "handlesOpen ?g"
    by (simp add: handlesOpen_def withRegistry_def fedA_eq)
  have d2: "DeletionTimestamp clusterA2 = None"
    by (simp add: clusterA2_def clusterA_def exampleCluster_def)
  have sp: "Spec clusterA \<noteq> Spec clusterA2"
    by (simp add: clusterA2_def clusterA_def exampleCluster_def)
  have r2: "IsClusterReady (Status clusterA2)"
    by (simp add: IsClusterReady_def clusterA2_def clusterA_def exampleCluster_def)
  have b2: "\<not> (DeletionTimestamp clusterA = None \<and> DeletionTimestamp clusterA2 \<noteq> None)"
    using d2 by simp
  have b3: "IsClusterReady (Status clusterA) \<noteq> IsClusterReady (Status clusterA2)
            \<or> Spec clusterA \<noteq> Spec clusterA2
            \<or> Labels clusterA \<noteq> Labels clusterA2
            \<or> Annotations clusterA \<noteq> Annotations clusterA2"
    using sp by simp
  have cfg: "getConfigForClusterUnlocked ?g ''a'' = Inr (Config ''https://a.example'')"
    by (simp add: withRegistry_def config_defs fedA_eq clusterStore_def clusterA2_def
        clusterA_def exampleCluster_def)
  have fac: "targetInformerFactory ?g clusterA2 (Config ''https://a.example'')
               = Inr (memberStore, \<lparr>HasSynced = True\<rparr>)"
    by (simp add: withRegistry_def fedA_eq exampleFactory_def n)
  have fac': "exampleFactory clusterA2 (Config ''https://a.example'')
               = Inr (memberStore, \<lparr>HasSynced = True\<rparr>)"
    by (simp add: exampleFactory_def n)
  from UpdateFunc_replace_order [OF og b2 b3, of bothHandlers]
  obtain g' where
    run2: "UpdateFunc bothHandlers ?g (ClusterObj clusterA) (ClusterObj clusterA2) = Inr g'"
    and eff2: "effects g' =
               effects ?g
               @ (case map_of (targetInformers ?g) (Name clusterA) of
                    Some h \<Rightarrow> (case stopChan h of Some ch \<Rightarrow> [Close ch] | None \<Rightarrow> [])
                  | None \<Rightarrow> [])
               @ (if ClusterUnavailable bothHandlers
                  then [CallClusterUnavailable clusterA
                          (case map_of (targetInformers ?g) (Name clusterA) of
                             Some h \<Rightarrow> store_List (store h)
                           | None \<Rightarrow> [])]
                  else [])
               @ (if IsClusterReady (Status clusterA2)
                  then (case getConfigForClusterUnlocked ?g (Name clusterA2) of
                          Inr config \<Rightarrow>
                            (case targetInformerFactory ?g clusterA2 config of
                               Inr r \<Rightarrow> [GoRun (nextChan ?g)]
                             | Inl err \<Rightarrow> [])
                        | Inl err \<Rightarrow> [])
                  else [])
               @ (if IsClusterReady (Status clusterA2) \<and> ClusterAvailable bothHandlers
                  then [CallClusterAvailable clusterA2]
                  else [])"
    and tis2: "targetInformers g' =
               (if IsClusterReady (Status clusterA2)
                then (case getConfigForClusterUnlocked ?g (Name clusterA2) of
                        Inr config \<Rightarrow>
                          (case targetInformerFactory ?g clusterA2 config of
                             Inr (st, ctl) \<Rightarrow>
                               AList.update (Name clusterA2)
                                 \<lparr>controller = ctl, store = st, stopChan = Some (nextChan ?g)\<rparr>
                                 (AList.delete (Name clusterA) (targetInformers ?g))
                           | Inl err \<Rightarrow> AList.delete (Name clusterA) (targetInformers ?g))
                      | Inl err \<Rightarrow> AList.delete (Name clusterA) (targetInformers ?g))
                else AList.delete (Name clusterA) (targetInformers ?g))"
    by blast
  have e2: "effects g' = [GoRun 0, GoRun 1, Close 1,
              CallClusterUnavailable clusterA [UnstructuredObj exampleObject],
              GoRun 2, CallClusterAvailable clusterA2]"
    unfolding eff2 n cfg fac using r2
    by (simp add: withRegistry_def fedA_eq bothHandlers_def memberStore_def fac')
  have g2: "targetInformers g' =
              [(''a'', \<lparr>controller = \<lparr>HasSynced = True\<rparr>, store = memberStore,
                        stopChan = Some 2\<rparr>)]"
    unfolding tis2 n cfg fac using r2
    by (simp add: withRegistry_def fedA_eq fac')
  show ?thesis using o d r nr og d2 sp r2 by (simp add: run e g run2 e2 g2)
qed

text \<open>
  The claim as stated has the call of \<open>ClusterUnavailable\<close> before the old target
  informer is destroyed. In the update of \<open>a\<close> to a new spec, with both handlers
  registered, channel 1 of the old target informer is closed first and
  \<open>ClusterUnavailable\<close> is called after it.
\<close>

theorem UpdateFunc_destroys_before_callback_counterexample:
  "map_sum id effects
     (UpdateFunc bothHandlers (withRegistry [clusterA2, clusterB, clusterC] fedA)
        (ClusterObj clusterA) (ClusterObj clusterA2))
   = Inr [GoRun 0, GoRun 1, Close 1,
          CallClusterUnavailable clusterA [UnstructuredObj exampleObject],
          GoRun 2, CallClusterAvailable clusterA2]"
proof -
  have n: "Name clusterA = ''a''" "Name clusterA2 = ''a''"
    by (simp_all add: clusterA2_def clusterA_def exampleCluster_def)
  have r: "IsClusterReady (Status clusterA2)"
    by (simp add: IsClusterReady_def clusterA2_def clusterA_def exampleCluster_def)
  have c1: "(DeletionTimestamp clusterA = None \<and> DeletionTimestamp clusterA2 \<noteq> None) = False"
    by (simp add: clusterA2_def clusterA_def exampleCluster_def)
  have c2: "(IsClusterReady (Status clusterA) \<noteq> IsClusterReady (Status clusterA2)
                \<or> Spec clusterA \<noteq> Spec clusterA2
                \<or> Labels clusterA \<noteq> Labels clusterA2
                \<or> Annotations clusterA \<noteq> Annotations clusterA2) = True"
    by (simp add: clusterA2_def clusterA_def exampleCluster_def)
  let ?f = "withRegistry [clusterA2, clusterB, clusterC] fedA"
  let ?f1 = "?f\<lparr>effects := [GoRun 0, GoRun 1, Close 1], targetInformers := []\<rparr>"
  have data: "getClusterData ?f (Name clusterA) = [UnstructuredObj exampleObject]"
    by (simp add: getClusterData_eq withRegistry_def n fedA_eq memberStore_def)
  have del: "deleteCluster ?f clusterA = Inr ?f1"
    by (simp add: deleteCluster_def close_def withRegistry_def n fedA_eq)
  have add: "effects (addCluster
                (perform (CallClusterUnavailable clusterA [UnstructuredObj exampleObject]) ?f1)
                clusterA2)
             = [GoRun 0, GoRun 1, Close 1,
                CallClusterUnavailable clusterA [UnstructuredObj exampleObject], GoRun 2]"
    unfolding addCluster_effects
    by (simp add: perform_def withRegistry_def config_defs fedA_eq clusterStore_def
        clusterA2_def clusterA_def clusterB_def clusterC_def exampleCluster_def
        exampleFactory_def)
  show ?thesis
    unfolding UpdateFunc_def obj.case c1 c2 if_False if_True data del
    using r add by (simp add: bothHandlers_def Let_def perform_def)
qed

end
